theory Spec2Isabelle
  imports Complex_Main "HOL-Library.AList"
begin

section \<open>Academic Stress EWS: feature encoding and validation\<close>

text \<open>
  A shallow embedding of \<^verbatim>\<open>src/desktop/app.py\<close> (the tkinter application) and of the
  parts of \<^verbatim>\<open>src/streamlit/app.py\<close> that load the feature order and call the model.

  Python exceptions are values of the type \<open>error\<close>; a computation that may raise has
  the type \<open>error + 'a\<close>, with \<open>Inl\<close> for the exception. Python dictionaries are
  association lists kept in insertion order (\<open>AList.update\<close> replaces the value of an
  existing key in place and appends a new key, as a \<^verbatim>\<open>dict\<close> does).

  Strings are \<open>char list\<close>, read as the UTF-8 bytes of the Python string; two Python
  strings are equal exactly when their UTF-8 bytes are. \<^verbatim>\<open>float(str)\<close> decodes the
  bytes to code points and maps Unicode spaces and decimal digits to ASCII before it
  parses, as CPython does. A byte sequence that is not the UTF-8 form of a code point
  sequence stands for no Python string; the conversion gives ValueError on it.
\<close>

datatype error =
    ValueError | OverflowError | TypeError | KeyError | AttributeError
  | FileNotFoundError | JSONDecodeError | OSError | ModelError

subsection \<open>\<^verbatim>\<open>float(x)\<close> on a string\<close>

text \<open>
  A Python float is an IEEE 754 binary64 value. \<open>Finite neg m e\<close> is the value
  \<open>\<plusminus> m \<sqdot> 2\<^sup>e\<close> (negative when \<open>neg\<close>); the conversion below only builds
  mantissas \<open>0 \<le> m \<le> 2\<^sup>5\<^sup>3\<close> with \<open>-1074 \<le> e \<le> 971\<close>.
\<close>

datatype pyfloat = Finite bool int int | Infinite bool | NaN

definition Py_ISSPACE :: "char \<Rightarrow> bool" where
  "Py_ISSPACE c = (of_char c \<in> {9, 10, 11, 12, 13, 32 :: nat})"

definition Py_ISDIGIT :: "char \<Rightarrow> bool" where
  "Py_ISDIGIT c = (48 \<le> (of_char c :: nat) \<and> (of_char c :: nat) \<le> 57)"

definition Py_TOLOWER :: "char \<Rightarrow> char" where
  "Py_TOLOWER c =
     (if 65 \<le> (of_char c :: nat) \<and> (of_char c :: nat) \<le> 90
      then char_of ((of_char c :: nat) + 32) else c)"

definition strip :: "string \<Rightarrow> string" where
  "strip s = rev (dropWhile Py_ISSPACE (rev (dropWhile Py_ISSPACE s)))"

text \<open>
  Underscores, as in numeric literals: each one stands between two digits, and is removed.
  The first argument is the previous character (NUL at the start).
\<close>

fun strip_underscores :: "char \<Rightarrow> string \<Rightarrow> string option" where
  "strip_underscores prev [] = (if prev = CHR ''_'' then None else Some [])"
| "strip_underscores prev (c # cs) =
     (if c = CHR ''_'' then
        (if Py_ISDIGIT prev then strip_underscores c cs else None)
      else if prev = CHR ''_'' \<and> \<not> Py_ISDIGIT c then None
      else map_option ((#) c) (strip_underscores c cs))"

definition parse_sign :: "string \<Rightarrow> bool \<times> string" where
  "parse_sign s =
     (case s of
        [] \<Rightarrow> (False, [])
      | c # cs \<Rightarrow>
          if c = CHR ''-'' then (True, cs)
          else if c = CHR ''+'' then (False, cs)
          else (False, s))"

definition digits_val :: "string \<Rightarrow> int" where
  "digits_val ds = foldl (\<lambda>acc c. 10 * acc + ((of_char c :: int) - 48)) 0 ds"

text \<open>The exponent part: empty, or \<open>e\<close>/\<open>E\<close>, an optional sign and at least one digit.\<close>

definition parse_exponent :: "string \<Rightarrow> int option" where
  "parse_exponent s =
     (case s of
        [] \<Rightarrow> Some 0
      | c # cs \<Rightarrow>
          if c = CHR ''e'' \<or> c = CHR ''E'' then
            (case parse_sign cs of
               (eneg, ds) \<Rightarrow>
                 if ds \<noteq> [] \<and> list_all Py_ISDIGIT ds
                 then Some (if eneg then - digits_val ds else digits_val ds)
                 else None)
          else None)"

text \<open>
  A decimal literal: sign, digits, an optional point and digits, at least one digit in
  all, an optional exponent, and nothing after it. The result \<open>(neg, m, k)\<close> stands for
  \<open>\<plusminus> m \<sqdot> 10\<^sup>k\<close>.
\<close>

definition parse_decimal :: "string \<Rightarrow> (bool \<times> int \<times> int) option" where
  "parse_decimal s =
     (case parse_sign s of
        (neg, r) \<Rightarrow>
          let ip = takeWhile Py_ISDIGIT r;
              r1 = dropWhile Py_ISDIGIT r;
              fp = (case r1 of [] \<Rightarrow> [] | c # cs \<Rightarrow>
                      if c = CHR ''.'' then takeWhile Py_ISDIGIT cs else []);
              r2 = (case r1 of [] \<Rightarrow> [] | c # cs \<Rightarrow>
                      if c = CHR ''.'' then dropWhile Py_ISDIGIT cs else r1)
          in if ip = [] \<and> fp = [] then None
             else (case parse_exponent r2 of
                     None \<Rightarrow> None
                   | Some e \<Rightarrow> Some (neg, digits_val (ip @ fp), e - int (length fp))))"

definition parse_inf_or_nan :: "string \<Rightarrow> pyfloat option" where
  "parse_inf_or_nan s =
     (case parse_sign s of
        (neg, r) \<Rightarrow>
          let l = map Py_TOLOWER r
          in if l = ''inf'' \<or> l = ''infinity'' then Some (Infinite neg)
             else if l = ''nan'' then Some NaN
             else None)"

text \<open>
  Correct rounding of the positive rational \<open>a / b\<close> to binary64 (round to nearest, ties
  to even), which is what CPython's \<^verbatim>\<open>_Py_dg_strtod\<close> computes.
\<close>

function bit_length :: "int \<Rightarrow> int" where
  "bit_length n = (if n \<le> 0 then 0 else 1 + bit_length (n div 2))"
  by pat_completeness auto
termination
  by (relation "measure nat") auto

declare bit_length.simps [simp del]

text \<open>\<open>floor_log2 a b\<close> is \<open>\<lfloor>log\<^sub>2 (a / b)\<rfloor>\<close> for positive \<open>a\<close> and \<open>b\<close>.\<close>

definition floor_log2 :: "int \<Rightarrow> int \<Rightarrow> int" where
  "floor_log2 a b =
     (let e0 = bit_length a - bit_length b
      in if (if e0 \<ge> 0 then b * 2 ^ nat e0 \<le> a else b \<le> a * 2 ^ nat (- e0))
         then e0 else e0 - 1)"

definition round_half_even :: "int \<Rightarrow> int \<Rightarrow> int" where
  "round_half_even num den =
     (let q = num div den; r = num mod den
      in if 2 * r < den then q
         else if den < 2 * r then q + 1
         else if even q then q else q + 1)"

definition to_double :: "bool \<Rightarrow> int \<Rightarrow> int \<Rightarrow> pyfloat" where
  "to_double neg a b =
     (if a = 0 then Finite neg 0 0
      else
        let sh = max (floor_log2 a b) (- 1022) - 52;
            n = (if sh < 0 then round_half_even (a * 2 ^ nat (- sh)) b
                 else round_half_even a (b * 2 ^ nat sh))
        in if 0 \<le> sh \<and> 2 ^ 1024 \<le> n * 2 ^ nat sh then Infinite neg
           else Finite neg n sh)"

text \<open>
  The conversion of an ASCII string (\<^verbatim>\<open>PyFloat_FromString\<close> after the Unicode step):
  strip the spaces, remove the underscores, then a decimal literal, or an infinity or a
  NaN.
\<close>

definition float_from_ascii :: "string \<Rightarrow> error + pyfloat" where
  "float_from_ascii x =
     (let s = strip x
      in if s = [] then Inl ValueError
         else (case strip_underscores (CHR 0x00) s of
                 None \<Rightarrow> Inl ValueError
               | Some u \<Rightarrow>
                   (case parse_decimal u of
                      Some (neg, m, k) \<Rightarrow>
                        Inr (if 0 \<le> k then to_double neg (m * 10 ^ nat k) 1
                             else to_double neg m (10 ^ nat (- k)))
                    | None \<Rightarrow>
                        (case parse_inf_or_nan u of
                           Some f \<Rightarrow> Inr f
                         | None \<Rightarrow> Inl ValueError))))"

text \<open>
  The Unicode step (\<^verbatim>\<open>_PyUnicode_TransformDecimalAndSpaceToASCII\<close>). The bytes are
  decoded to code points; overlong forms, surrogates and values above \<open>0x10FFFF\<close> are
  malformed. A string of ASCII code points is left as it is. Otherwise a code point
  below 127 is kept, a Unicode space becomes a space, a decimal digit its ASCII digit,
  and at the first other code point the string ends with a question mark.
\<close>

definition continuation :: "int \<Rightarrow> bool" where
  "continuation b = (128 \<le> b \<and> b < 192)"

fun utf8_decode :: "int list \<Rightarrow> int list option" where
  "utf8_decode [] = Some []"
| "utf8_decode (b0 # bs) =
     (if b0 < 128 then map_option ((#) b0) (utf8_decode bs)
      else if 194 \<le> b0 \<and> b0 < 224 then
        (case bs of
           b1 # bs1 \<Rightarrow>
             if continuation b1
             then map_option ((#) ((b0 - 192) * 64 + (b1 - 128))) (utf8_decode bs1)
             else None
         | _ \<Rightarrow> None)
      else if 224 \<le> b0 \<and> b0 < 240 then
        (case bs of
           b1 # b2 # bs2 \<Rightarrow>
             let cp = (b0 - 224) * 4096 + (b1 - 128) * 64 + (b2 - 128)
             in if continuation b1 \<and> continuation b2 \<and> 2048 \<le> cp \<and>
                   \<not> (55296 \<le> cp \<and> cp < 57344)
                then map_option ((#) cp) (utf8_decode bs2)
                else None
         | _ \<Rightarrow> None)
      else if 240 \<le> b0 \<and> b0 < 245 then
        (case bs of
           b1 # b2 # b3 # bs3 \<Rightarrow>
             let cp = (b0 - 240) * 262144 + (b1 - 128) * 4096 + (b2 - 128) * 64 + (b3 - 128)
             in if continuation b1 \<and> continuation b2 \<and> continuation b3 \<and>
                   65536 \<le> cp \<and> cp < 1114112
                then map_option ((#) cp) (utf8_decode bs3)
                else None
         | _ \<Rightarrow> None)
      else None)"

text \<open>\<^verbatim>\<open>Py_UNICODE_ISSPACE\<close>: the code points for which \<^verbatim>\<open>str.isspace\<close> holds.\<close>

definition Py_UNICODE_ISSPACE :: "int \<Rightarrow> bool" where
  "Py_UNICODE_ISSPACE ch =
     (ch \<in> {0x09, 0x0A, 0x0B, 0x0C, 0x0D, 0x1C, 0x1D, 0x1E, 0x1F, 0x20, 0x85, 0xA0, 0x1680,
            0x2000, 0x2001, 0x2002, 0x2003, 0x2004, 0x2005, 0x2006, 0x2007, 0x2008, 0x2009,
            0x200A, 0x2028, 0x2029, 0x202F, 0x205F, 0x3000})"

text \<open>
  \<^verbatim>\<open>Py_UNICODE_TODECIMAL\<close>: the decimal digits of Unicode 14.0 (the database of
  CPython 3.11) come in 66 runs of ten, from the digit zero of each script upwards.
\<close>

definition decimal_zeros :: "int list" where
  "decimal_zeros =
     [0x30, 0x660, 0x6F0, 0x7C0, 0x966, 0x9E6, 0xA66, 0xAE6, 0xB66, 0xBE6, 0xC66, 0xCE6,
      0xD66, 0xDE6, 0xE50, 0xED0, 0xF20, 0x1040, 0x1090, 0x17E0, 0x1810, 0x1946, 0x19D0,
      0x1A80, 0x1A90, 0x1B50, 0x1BB0, 0x1C40, 0x1C50, 0xA620, 0xA8D0, 0xA900, 0xA9D0,
      0xA9F0, 0xAA50, 0xABF0, 0xFF10, 0x104A0, 0x10D30, 0x11066, 0x110F0, 0x11136, 0x111D0,
      0x112F0, 0x11450, 0x114D0, 0x11650, 0x116C0, 0x11730, 0x118E0, 0x11950, 0x11C50,
      0x11D50, 0x11DA0, 0x16A60, 0x16AC0, 0x16B50, 0x1D7CE, 0x1D7D8, 0x1D7E2, 0x1D7EC,
      0x1D7F6, 0x1E140, 0x1E2F0, 0x1E950, 0x1FBF0]"

definition Py_UNICODE_TODECIMAL :: "int \<Rightarrow> int option" where
  "Py_UNICODE_TODECIMAL ch =
     (case filter (\<lambda>z. z \<le> ch \<and> ch < z + 10) decimal_zeros of
        [] \<Rightarrow> None
      | z # zs \<Rightarrow> Some (ch - z))"

fun to_ascii :: "int list \<Rightarrow> string" where
  "to_ascii [] = []"
| "to_ascii (ch # chs) =
     (if ch < 127 then char_of ch # to_ascii chs
      else if Py_UNICODE_ISSPACE ch then CHR '' '' # to_ascii chs
      else (case Py_UNICODE_TODECIMAL ch of
              None \<Rightarrow> ''?''
            | Some d \<Rightarrow> char_of (48 + d) # to_ascii chs))"

definition py_float :: "string \<Rightarrow> error + pyfloat" where
  "py_float x =
     (case utf8_decode (map of_char x) of
        None \<Rightarrow> Inl ValueError
      | Some chs \<Rightarrow>
          float_from_ascii (if list_all (\<lambda>ch. ch < 128) chs then x else to_ascii chs))"

subsection \<open>\<^verbatim>\<open>int(f)\<close> on a float\<close>

text \<open>Truncation toward zero; an infinity raises OverflowError and a NaN ValueError.\<close>

definition trunc_mag :: "int \<Rightarrow> int \<Rightarrow> int" where
  "trunc_mag m e = (if 0 \<le> e then m * 2 ^ nat e else m div 2 ^ nat (- e))"

definition has_fraction :: "pyfloat \<Rightarrow> bool" where
  "has_fraction f =
     (case f of
        Finite neg m e \<Rightarrow> e < 0 \<and> m mod 2 ^ nat (- e) \<noteq> 0
      | _ \<Rightarrow> False)"

definition py_int :: "pyfloat \<Rightarrow> error + int" where
  "py_int f =
     (case f of
        Finite neg m e \<Rightarrow> Inr (if neg then - trunc_mag m e else trunc_mag m e)
      | Infinite neg \<Rightarrow> Inl OverflowError
      | NaN \<Rightarrow> Inl ValueError)"

subsection \<open>\<^verbatim>\<open>safe_cast_int\<close>\<close>

text \<open>
  \<^verbatim>\<open>
  def safe_cast_int(x):
      try:
          return int(float(x))
      except:
          return None
  \<close>
  \<open>int_of_float\<close> is the body of the \<^verbatim>\<open>try\<close>; the bare \<^verbatim>\<open>except\<close> turns every
  exception into \<open>None\<close>.
\<close>

definition int_of_float :: "string \<Rightarrow> error + int" where
  "int_of_float x = (case py_float x of Inl e \<Rightarrow> Inl e | Inr f \<Rightarrow> py_int f)"

definition safe_cast_int :: "string \<Rightarrow> int option" where
  "safe_cast_int x = (case int_of_float x of Inl e \<Rightarrow> None | Inr i \<Rightarrow> Some i)"

subsection \<open>The feature catalogue\<close>

definition REQUIRED_FEATURES :: "string list" where
  "REQUIRED_FEATURES =
     [''school'', ''sex'', ''age'', ''address'', ''famsize'', ''Pstatus'', ''Medu'', ''Fedu'',
      ''Mjob'', ''Fjob'', ''reason'', ''guardian'', ''traveltime'', ''studytime'', ''failures'',
      ''schoolsup'', ''famsup'', ''paid'', ''activities'', ''nursery'', ''higher'', ''internet'',
      ''romantic'', ''famrel'', ''freetime'', ''goout'', ''Dalc'', ''Walc'', ''health'', ''absences'',
      ''G1'', ''G2'']"

text \<open>
  An encoded value is a Python \<^verbatim>\<open>str\<close> or \<^verbatim>\<open>int\<close>. An options map is a
  \<^verbatim>\<open>dict\<close> from display string to encoded value.
\<close>

datatype enc = EStr string | EInt int

type_synonym options = "(string \<times> enc) list"

text \<open>The en dash (U+2013) of some display strings, as UTF-8.\<close>

definition en_dash :: string where
  "en_dash = [CHR 0xE2, CHR 0x80, CHR 0x93]"

text \<open>
  \<^verbatim>\<open>FIELD_INFO\<close>, one entry per feature: the name and the options (\<open>None\<close> for a
  numeric field). The display label, the second component in the source, is left out:
  it is only passed to the label widget.
\<close>

definition FIELD_INFO :: "(string \<times> options option) list" where
  "FIELD_INFO =
     [(''school'', Some [(''GP'', EStr ''GP''), (''MS'', EStr ''MS'')]),
      (''sex'', Some [(''F'', EStr ''F''), (''M'', EStr ''M'')]),
      (''age'', None),
      (''address'', Some [(''U (urban)'', EStr ''U''), (''R (rural)'', EStr ''R'')]),
      (''famsize'', Some [(''GT3 (>=3)'', EStr ''GT3''), (''LE3 (<3)'', EStr ''LE3'')]),
      (''Pstatus'', Some [(''T (together)'', EStr ''T''), (''A (apart)'', EStr ''A'')]),
      (''Medu'', Some [(''0 - None'', EInt 0), (''1 - Primary'', EInt 1),
         (''2 - 5th'' @ en_dash @ ''9th'', EInt 2), (''3 - Secondary'', EInt 3),
         (''4 - Higher'', EInt 4)]),
      (''Fedu'', Some [(''0 - None'', EInt 0), (''1 - Primary'', EInt 1),
         (''2 - 5th'' @ en_dash @ ''9th'', EInt 2), (''3 - Secondary'', EInt 3),
         (''4 - Higher'', EInt 4)]),
      (''Mjob'', Some [(''teacher'', EStr ''teacher''), (''health'', EStr ''health''),
         (''services'', EStr ''services''), (''at_home'', EStr ''at_home''),
         (''other'', EStr ''other'')]),
      (''Fjob'', Some [(''teacher'', EStr ''teacher''), (''health'', EStr ''health''),
         (''services'', EStr ''services''), (''at_home'', EStr ''at_home''),
         (''other'', EStr ''other'')]),
      (''reason'', Some [(''home'', EStr ''home''), (''reputation'', EStr ''reputation''),
         (''course'', EStr ''course''), (''other'', EStr ''other'')]),
      (''guardian'', Some [(''mother'', EStr ''mother''), (''father'', EStr ''father''),
         (''other'', EStr ''other'')]),
      (''traveltime'', Some [(''1 - <15 min'', EInt 1),
         (''2 - 15'' @ en_dash @ ''30 min'', EInt 2),
         (''3 - 30'' @ en_dash @ ''60 min'', EInt 3), (''4 - >60 min'', EInt 4)]),
      (''studytime'', Some [(''1 - <2 hrs'', EInt 1),
         (''2 - 2'' @ en_dash @ ''5 hrs'', EInt 2),
         (''3 - 5'' @ en_dash @ ''10 hrs'', EInt 3), (''4 - >10 hrs'', EInt 4)]),
      (''failures'', Some [(''0'', EInt 0), (''1'', EInt 1), (''2'', EInt 2), (''3'', EInt 3)]),
      (''schoolsup'', Some [(''yes'', EInt 1), (''no'', EInt 0)]),
      (''famsup'', Some [(''yes'', EInt 1), (''no'', EInt 0)]),
      (''paid'', Some [(''yes'', EInt 1), (''no'', EInt 0)]),
      (''activities'', Some [(''yes'', EInt 1), (''no'', EInt 0)]),
      (''nursery'', Some [(''yes'', EInt 1), (''no'', EInt 0)]),
      (''higher'', Some [(''yes'', EInt 1), (''no'', EInt 0)]),
      (''internet'', Some [(''yes'', EInt 1), (''no'', EInt 0)]),
      (''romantic'', Some [(''yes'', EInt 1), (''no'', EInt 0)]),
      (''famrel'', Some [(''1'', EInt 1), (''2'', EInt 2), (''3'', EInt 3), (''4'', EInt 4),
         (''5'', EInt 5)]),
      (''freetime'', Some [(''1'', EInt 1), (''2'', EInt 2), (''3'', EInt 3), (''4'', EInt 4),
         (''5'', EInt 5)]),
      (''goout'', Some [(''1'', EInt 1), (''2'', EInt 2), (''3'', EInt 3), (''4'', EInt 4),
         (''5'', EInt 5)]),
      (''Dalc'', Some [(''1'', EInt 1), (''2'', EInt 2), (''3'', EInt 3), (''4'', EInt 4),
         (''5'', EInt 5)]),
      (''Walc'', Some [(''1'', EInt 1), (''2'', EInt 2), (''3'', EInt 3), (''4'', EInt 4),
         (''5'', EInt 5)]),
      (''health'', Some [(''1'', EInt 1), (''2'', EInt 2), (''3'', EInt 3), (''4'', EInt 4),
         (''5'', EInt 5)]),
      (''absences'', None),
      (''G1'', None),
      (''G2'', None)]"

text \<open>
  \<^verbatim>\<open>FIELD_INFO_MAP = {feat: (label, opts) for feat, label, opts in FIELD_INFO}\<close>: the
  comprehension stores the entries from left to right.
\<close>

definition FIELD_INFO_MAP :: "(string \<times> options option) list" where
  "FIELD_INFO_MAP = foldl (\<lambda>m (feat, opts). AList.update feat opts m) [] FIELD_INFO"

subsection \<open>The form: \<^verbatim>\<open>widget_vars\<close>\<close>

text \<open>
  \<^verbatim>\<open>widget_vars[feature]\<close> is \<^verbatim>\<open>("dropdown", var, options_map)\<close> or
  \<^verbatim>\<open>("spin", var, (minval, maxval))\<close>. The \<^verbatim>\<open>StringVar\<close> is a reference to a
  mutable string; the model keeps the tag and the third component here, and the contents
  of the variable of each feature in the field \<open>var\<close> of the state \<open>gui\<close> below. The
  initial contents (the first option, the lower bound) are not modelled: every theorem
  holds for all contents.
\<close>

datatype extra = Options options | Bounds int int

type_synonym widgets = "(string \<times> (string \<times> extra)) list"

definition add_dropdown :: "string \<Rightarrow> options \<Rightarrow> widgets \<Rightarrow> widgets" where
  "add_dropdown feature options_map wv =
     AList.update feature (''dropdown'', Options options_map) wv"

definition add_spinbox :: "string \<Rightarrow> int \<Rightarrow> int \<Rightarrow> widgets \<Rightarrow> widgets" where
  "add_spinbox feature minval maxval wv =
     AList.update feature (''spin'', Bounds minval maxval) wv"

text \<open>
  The body of the loop \<^verbatim>\<open>for feat in FEATURE_ORDER\<close> that builds the form;
  \<^verbatim>\<open>FIELD_INFO_MAP.get(feat, (feat, None))\<close> gives \<open>None\<close> options for a feature
  that is not in the catalogue.
\<close>

definition add_field :: "string \<Rightarrow> widgets \<Rightarrow> widgets" where
  "add_field feat wv =
     (let opts = (case map_of FIELD_INFO_MAP feat of None \<Rightarrow> None | Some opts \<Rightarrow> opts)
      in case opts of
           None \<Rightarrow>
             if feat = ''age'' then add_spinbox feat 10 30 wv
             else if feat = ''absences'' then add_spinbox feat 0 93 wv
             else if feat = ''G1'' \<or> feat = ''G2'' then add_spinbox feat 0 20 wv
             else add_spinbox feat 0 100 wv
         | Some options_map \<Rightarrow> add_dropdown feat options_map wv)"

definition widget_vars :: "string list \<Rightarrow> widgets" where
  "widget_vars FEATURE_ORDER = foldl (\<lambda>wv feat. add_field feat wv) [] FEATURE_ORDER"

subsection \<open>\<^verbatim>\<open>gather_and_map_inputs\<close>\<close>

text \<open>
  The mutable state of the window: the contents of the \<^verbatim>\<open>StringVar\<close> of each
  feature, the texts of the error labels, the two result variables, and the error
  dialogs shown so far (title and message).
\<close>

datatype message = Text string | Traceback error

record gui =
  var :: "string \<Rightarrow> string"
  error_labels :: "(string \<times> string) list"
  pred_var :: string
  prob_var :: string
  dialogs :: "(string \<times> message) list"

text \<open>
  The result of \<^verbatim>\<open>gather_and_map_inputs\<close>: \<open>Invalid errors\<close> is the pair
  \<^verbatim>\<open>(False, errors)\<close> with the error dictionary, \<open>Valid xs\<close> the pair
  \<^verbatim>\<open>(True, xs)\<close> with the encoded list.
\<close>

datatype outcome = Invalid "(string \<times> string) list" | Valid "enc list"

text \<open>
  One iteration of the loop over \<^verbatim>\<open>FEATURE_ORDER\<close>, on the dictionaries
  \<^verbatim>\<open>errors\<close> and \<^verbatim>\<open>mapped\<close>. A feature without an entry in
  \<^verbatim>\<open>widget_vars\<close> raises KeyError, and \<^verbatim>\<open>extra.get\<close> on the bounds tuple of a
  spin box raises AttributeError.
\<close>

definition gather_field ::
  "widgets \<Rightarrow> (string \<Rightarrow> string) \<Rightarrow> string \<Rightarrow>
   (string \<times> string) list \<times> (string \<times> enc) list \<Rightarrow>
   error + (string \<times> string) list \<times> (string \<times> enc) list" where
  "gather_field wv vars feat em =
     (case em of (errors, mapped) \<Rightarrow>
        (case map_of wv feat of
           None \<Rightarrow> Inl KeyError
         | Some (t, extra) \<Rightarrow>
             if t = ''dropdown'' then
               (case extra of
                  Bounds minval maxval \<Rightarrow> Inl AttributeError
                | Options options_map \<Rightarrow>
                    (case map_of options_map (vars feat) of
                       None \<Rightarrow> Inr (AList.update feat ''Choose a valid option'' errors, mapped)
                     | Some mapped_val \<Rightarrow> Inr (errors, AList.update feat mapped_val mapped)))
             else
               (case safe_cast_int (vars feat) of
                  None \<Rightarrow> Inr (AList.update feat ''Enter a number'' errors, mapped)
                | Some val_i \<Rightarrow> Inr (errors, AList.update feat (EInt val_i) mapped))))"

fun gather_loop ::
  "widgets \<Rightarrow> (string \<Rightarrow> string) \<Rightarrow> string list \<Rightarrow>
   (string \<times> string) list \<times> (string \<times> enc) list \<Rightarrow>
   error + (string \<times> string) list \<times> (string \<times> enc) list" where
  "gather_loop wv vars [] em = Inr em"
| "gather_loop wv vars (feat # feats) em =
     (case gather_field wv vars feat em of
        Inl e \<Rightarrow> Inl e
      | Inr em' \<Rightarrow> gather_loop wv vars feats em')"

text \<open>\<^verbatim>\<open>[mapped[f] for f in FEATURE_ORDER]\<close>; a missing key raises KeyError.\<close>

fun lookup_all :: "(string \<times> enc) list \<Rightarrow> string list \<Rightarrow> error + enc list" where
  "lookup_all mapped [] = Inr []"
| "lookup_all mapped (f # fs) =
     (case map_of mapped f of
        None \<Rightarrow> Inl KeyError
      | Some v \<Rightarrow> (case lookup_all mapped fs of Inl e \<Rightarrow> Inl e | Inr vs \<Rightarrow> Inr (v # vs)))"

definition gather_and_map_inputs ::
  "string list \<Rightarrow> widgets \<Rightarrow> gui \<Rightarrow> error + outcome" where
  "gather_and_map_inputs FEATURE_ORDER wv g =
     (case gather_loop wv (var g) FEATURE_ORDER ([], []) of
        Inl e \<Rightarrow> Inl e
      | Inr (errors, mapped) \<Rightarrow>
          if errors \<noteq> [] then Inr (Invalid errors)
          else (case lookup_all mapped FEATURE_ORDER of
                  Inl e \<Rightarrow> Inl e
                | Inr xs \<Rightarrow> Inr (Valid xs)))"

text \<open>
  What the loop decides for one feature of the form, read off the branches of
  \<open>gather_field\<close>: \<open>Inl\<close> the message stored in \<^verbatim>\<open>errors\<close>, \<open>Inr\<close> the value
  stored in \<^verbatim>\<open>mapped\<close>. \<open>widget_of feat\<close> is the entry that \<open>add_field\<close> stores
  for the feature (lemma \<open>add_field_update\<close>).
\<close>

definition widget_of :: "string \<Rightarrow> string \<times> extra" where
  "widget_of feat =
     (case (case map_of FIELD_INFO_MAP feat of None \<Rightarrow> None | Some opts \<Rightarrow> opts) of
        None \<Rightarrow>
          if feat = ''age'' then (''spin'', Bounds 10 30)
          else if feat = ''absences'' then (''spin'', Bounds 0 93)
          else if feat = ''G1'' \<or> feat = ''G2'' then (''spin'', Bounds 0 20)
          else (''spin'', Bounds 0 100)
      | Some options_map \<Rightarrow> (''dropdown'', Options options_map))"

definition field_result :: "string \<Rightarrow> string \<Rightarrow> string + enc" where
  "field_result feat val =
     (case widget_of feat of
        (t, Options options_map) \<Rightarrow>
          (case map_of options_map val of
             None \<Rightarrow> Inl ''Choose a valid option''
           | Some mapped_val \<Rightarrow> Inr mapped_val)
      | (t, Bounds minval maxval) \<Rightarrow>
          (case safe_cast_int val of
             None \<Rightarrow> Inl ''Enter a number''
           | Some val_i \<Rightarrow> Inr (EInt val_i)))"

text \<open>A field validates when the loop stores a value for it and no error.\<close>

definition validates :: "string \<Rightarrow> string \<Rightarrow> bool" where
  "validates feat val = (case field_result feat val of Inl msg \<Rightarrow> False | Inr v \<Rightarrow> True)"

subsection \<open>\<^verbatim>\<open>predict_action\<close>\<close>

text \<open>
  The model collaborator and pandas are outside the repository; they are parameters.
  \<open>DataFrame\<close> stands for \<^verbatim>\<open>import pandas\<close> and \<^verbatim>\<open>pd.DataFrame([row], columns=...)\<close>,
  \<open>predict_proba\<close> for \<^verbatim>\<open>float(MODEL.predict_proba(X)[:, 1][0])\<close> (a model without the
  method raises AttributeError), \<open>predict\<close> for \<^verbatim>\<open>int(MODEL.predict(X)[0])\<close>, and
  \<open>format_prob\<close> for the format of the probability (\<^verbatim>\<open>f"{prob:.4f}"\<close> in the desktop
  application, \<^verbatim>\<open>f"{prob:.3f}"\<close> in the Streamlit one).
\<close>

datatype row = RowList "enc list" | RowDict "(string \<times> enc) list"

record ('x, 'p) collaborator =
  DataFrame :: "row \<Rightarrow> string list \<Rightarrow> error + 'x"
  predict_proba :: "'x \<Rightarrow> error + 'p"
  predict :: "'x \<Rightarrow> error + int"
  format_prob :: "'p \<Rightarrow> string"

text \<open>\<^verbatim>\<open>error_labels[feat].config(text=msg)\<close> for each item of the error dictionary.\<close>

fun show_errors ::
  "(string \<times> string) list \<Rightarrow> (string \<times> string) list \<Rightarrow> error + (string \<times> string) list" where
  "show_errors [] labels = Inr labels"
| "show_errors ((feat, msg) # items) labels =
     (case map_of labels feat of
        None \<Rightarrow> Inl KeyError
      | Some old \<Rightarrow> show_errors items (AList.update feat msg labels))"

text \<open>The outer \<^verbatim>\<open>try\<close> block of \<^verbatim>\<open>predict_action\<close> with its handler.\<close>

definition predict_block ::
  "('x, 'p) collaborator \<Rightarrow> string list \<Rightarrow> enc list \<Rightarrow> gui \<Rightarrow> gui" where
  "predict_block M FEATURE_ORDER payload g =
     (case DataFrame M (RowList payload) FEATURE_ORDER of
        Inl e \<Rightarrow> g\<lparr>dialogs := dialogs g @ [(''Prediction error'', Traceback e)]\<rparr>
      | Inr X \<Rightarrow>
          let prob = (case predict_proba M X of Inl e \<Rightarrow> None | Inr p \<Rightarrow> Some p)
          in case predict M X of
               Inl e \<Rightarrow> g\<lparr>dialogs := dialogs g @ [(''Prediction error'', Traceback e)]\<rparr>
             | Inr pred \<Rightarrow>
                 g\<lparr>pred_var := (if pred = 1 then ''1 (High stress)'' else ''0 (Low stress)''),
                   prob_var := (case prob of Some p \<Rightarrow> format_prob M p | None \<Rightarrow> ''N/A'')\<rparr>)"

definition predict_action ::
  "('x, 'p) collaborator \<Rightarrow> string list \<Rightarrow> widgets \<Rightarrow> gui \<Rightarrow> error + gui" where
  "predict_action M FEATURE_ORDER wv g0 =
     (let g = g0\<lparr>error_labels := map (\<lambda>(feat, text). (feat, [])) (error_labels g0)\<rparr>
      in case gather_and_map_inputs FEATURE_ORDER wv g of
           Inl e \<Rightarrow> Inl e
         | Inr (Invalid errors) \<Rightarrow>
             (case show_errors errors (error_labels g) of
                Inl e \<Rightarrow> Inl e
              | Inr labels \<Rightarrow>
                  Inr (g\<lparr>error_labels := labels,
                         dialogs := dialogs g @
                           [(''Input Error'', Text ''Fix the highlighted fields.'')]\<rparr>))
         | Inr (Valid payload) \<Rightarrow> Inr (predict_block M FEATURE_ORDER payload g))"

subsection \<open>The feature order of the desktop application\<close>

text \<open>
  What \<^verbatim>\<open>json.load\<close> returns, and the state of the sidecar file at start:
  absent (\<^verbatim>\<open>os.path.exists\<close> is false), present but \<^verbatim>\<open>open\<close> or
  \<^verbatim>\<open>json.load\<close> raises, or present with a JSON value. The value of a number plays no
  role here.
\<close>

datatype json =
    JNull | JBool bool | JNum int | JStr string
  | JArr "json list" | JObj "(string \<times> json) list"

datatype sidecar = Absent | Unreadable error | Content json

text \<open>
  The test \<^verbatim>\<open>f in FEATURE_ORDER\<close> for a string \<open>f\<close>: an element of a list, a key of a
  dictionary, a substring of a string; TypeError on a number, a boolean or null.
\<close>

fun contains :: "string \<Rightarrow> string \<Rightarrow> bool" where
  "contains [] f = (f = [])"
| "contains (c # cs) f = (take (length f) (c # cs) = f \<or> contains cs f)"

definition py_in :: "string \<Rightarrow> json \<Rightarrow> error + bool" where
  "py_in f j =
     (case j of
        JArr xs \<Rightarrow> Inr (JStr f \<in> set xs)
      | JObj kvs \<Rightarrow> Inr (f \<in> set (map fst kvs))
      | JStr s \<Rightarrow> Inr (contains s f)
      | _ \<Rightarrow> Inl TypeError)"

text \<open>\<^verbatim>\<open>all(f in FEATURE_ORDER for f in names)\<close>: stops at the first false test.\<close>

fun all_in :: "string list \<Rightarrow> json \<Rightarrow> error + bool" where
  "all_in [] j = Inr True"
| "all_in (f # fs) j =
     (case py_in f j of
        Inl e \<Rightarrow> Inl e
      | Inr b \<Rightarrow> if b then all_in fs j else Inr False)"

text \<open>
  Lines 30 to 39 of the desktop application. Every exception raised between
  \<^verbatim>\<open>try\<close> and \<^verbatim>\<open>except Exception\<close> selects the copy of the required list.
\<close>

definition FEATURE_ORDER_desktop :: "sidecar \<Rightarrow> error + json" where
  "FEATURE_ORDER_desktop file =
     (case file of
        Absent \<Rightarrow> Inr (JArr (map JStr REQUIRED_FEATURES))
      | Unreadable e \<Rightarrow> Inr (JArr (map JStr REQUIRED_FEATURES))
      | Content j \<Rightarrow>
          (case all_in REQUIRED_FEATURES j of
             Inl e \<Rightarrow> Inr (JArr (map JStr REQUIRED_FEATURES))
           | Inr b \<Rightarrow>
               if \<not> b then Inr (JArr (map JStr REQUIRED_FEATURES)) else Inr j))"

subsection \<open>The Streamlit application: loading and prediction\<close>

text \<open>What the page shows: \<^verbatim>\<open>st.error\<close>, \<^verbatim>\<open>st.warning\<close>, \<^verbatim>\<open>st.metric\<close>,
  \<^verbatim>\<open>st.exception\<close>, and the remaining elements by name.\<close>

datatype st_elem =
    StError string "error option" | StWarning string | StMetric string string
  | StException error | StOther string

text \<open>
  \<^verbatim>\<open>load_artifacts\<close>: \<open>joblib_load\<close> is the outcome of \<^verbatim>\<open>joblib.load(model_path)\<close>.
\<close>

definition load_artifacts :: "error + 'm \<Rightarrow> sidecar \<Rightarrow> error + 'm \<times> json" where
  "load_artifacts joblib_load file =
     (case joblib_load of
        Inl e \<Rightarrow> Inl e
      | Inr model \<Rightarrow>
          (case file of
             Absent \<Rightarrow> Inl FileNotFoundError
           | Unreadable e \<Rightarrow> Inl e
           | Content feature_order \<Rightarrow> Inr (model, feature_order)))"

text \<open>
  Lines 57 to 72: the script stops (\<^verbatim>\<open>st.stop()\<close>) after showing the error, or goes on
  with the loaded order, with a warning when a required feature is not in it. The
  membership test is outside the \<^verbatim>\<open>try\<close>: its exception ends the script run.
\<close>

datatype 'm startup = Stopped "st_elem list" | Running 'm json "st_elem list"

definition REQUIRED :: "string list" where
  "REQUIRED =
     [''school'', ''sex'', ''age'', ''address'', ''famsize'', ''Pstatus'', ''Medu'', ''Fedu'',
      ''Mjob'', ''Fjob'', ''reason'', ''guardian'', ''traveltime'', ''studytime'', ''failures'',
      ''schoolsup'', ''famsup'', ''paid'', ''activities'', ''nursery'', ''higher'', ''internet'',
      ''romantic'', ''famrel'', ''freetime'', ''goout'', ''Dalc'', ''Walc'', ''health'', ''absences'',
      ''G1'', ''G2'']"

definition order_warning :: string where
  "order_warning =
     ''Loaded feature order does not exactly match expected required '' @
     ''features. App will still attempt to proceed using feature_names.json order.''"

definition streamlit_start :: "error + 'm \<Rightarrow> sidecar \<Rightarrow> error + 'm startup" where
  "streamlit_start joblib_load file =
     (case load_artifacts joblib_load file of
        Inl e \<Rightarrow> Inr (Stopped [StError ''Failed to load model/features: '' (Some e)])
      | Inr (MODEL, FEATURE_ORDER) \<Rightarrow>
          (case all_in REQUIRED FEATURE_ORDER of
             Inl e \<Rightarrow> Inl e
           | Inr b \<Rightarrow>
               Inr (Running MODEL FEATURE_ORDER
                      (if \<not> b then [StWarning order_warning] else []))))"

text \<open>\<^verbatim>\<open>validate_inputs\<close> and the block under \<^verbatim>\<open>if submitted:\<close>.\<close>

definition validate_inputs :: "(string \<times> enc) list \<Rightarrow> string list" where
  "validate_inputs inp = map (\<lambda>f. ''Missing '' @ f) (filter (\<lambda>f. map_of inp f = None) REQUIRED)"

fun join :: "string \<Rightarrow> string list \<Rightarrow> string" where
  "join sep [] = []"
| "join sep [x] = x"
| "join sep (x # y # ys) = x @ sep @ join sep (y # ys)"

definition streamlit_submit ::
  "('x, 'p) collaborator \<Rightarrow> string list \<Rightarrow> (string \<times> enc) list \<Rightarrow> error + st_elem list" where
  "streamlit_submit M FEATURE_ORDER inputs =
     (let errs = validate_inputs inputs
      in if errs \<noteq> [] then Inr [StError (''Validation errors: '' @ join ''; '' errs) None]
         else
           (case DataFrame M (RowDict inputs) FEATURE_ORDER of
              Inl e \<Rightarrow> Inl e
            | Inr X \<Rightarrow>
                let prob = (case predict_proba M X of Inl e \<Rightarrow> None | Inr p \<Rightarrow> Some p)
                in case predict M X of
                     Inl e \<Rightarrow> Inr [StError ''Prediction failed: '' (Some e), StException e]
                   | Inr pred \<Rightarrow>
                       Inr [StMetric ''Prediction (class)''
                              (if pred = 1 then ''High stress (1)'' else ''Low stress (0)''),
                            StMetric ''Probability''
                              (case prob of Some p \<Rightarrow> format_prob M p | None \<Rightarrow> ''N/A''),
                            StOther ''markdown'', StOther ''json'',
                            StOther ''download_button'']))"

subsection \<open>A filled form\<close>

text \<open>
  The contents of a form with a valid entry in each of the 32 fields, and a window
  state holding them; used to run the functions on concrete inputs.
\<close>

definition example_inputs :: "(string \<times> string) list" where
  "example_inputs =
     [(''school'', ''GP''), (''sex'', ''F''), (''age'', ''17''), (''address'', ''U (urban)''),
      (''famsize'', ''GT3 (>=3)''), (''Pstatus'', ''T (together)''),
      (''Medu'', ''4 - Higher''), (''Fedu'', ''2 - 5th'' @ en_dash @ ''9th''),
      (''Mjob'', ''teacher''), (''Fjob'', ''other''), (''reason'', ''course''),
      (''guardian'', ''mother''), (''traveltime'', ''1 - <15 min''),
      (''studytime'', ''2 - 2'' @ en_dash @ ''5 hrs''), (''failures'', ''2''),
      (''schoolsup'', ''yes''), (''famsup'', ''no''), (''paid'', ''no''),
      (''activities'', ''yes''), (''nursery'', ''yes''), (''higher'', ''yes''),
      (''internet'', ''yes''), (''romantic'', ''no''), (''famrel'', ''4''),
      (''freetime'', ''3''), (''goout'', ''2''), (''Dalc'', ''1''), (''Walc'', ''1''),
      (''health'', ''5''), (''absences'', ''6''), (''G1'', ''12.0''), (''G2'', ''11'')]"

text \<open>The encoded list of the filled form, and the same data as Streamlit's \<^verbatim>\<open>inputs\<close>.\<close>

definition example_vector :: "enc list" where
  "example_vector =
     [EStr ''GP'', EStr ''F'', EInt 17, EStr ''U'', EStr ''GT3'', EStr ''T'', EInt 4,
      EInt 2, EStr ''teacher'', EStr ''other'', EStr ''course'', EStr ''mother'', EInt 1,
      EInt 2, EInt 2, EInt 1, EInt 0, EInt 0, EInt 1, EInt 1, EInt 1, EInt 1, EInt 0,
      EInt 4, EInt 3, EInt 2, EInt 1, EInt 1, EInt 5, EInt 6, EInt 12, EInt 11]"

definition example_dict :: "(string \<times> enc) list" where
  "example_dict = zip REQUIRED_FEATURES example_vector"

definition form_with :: "(string \<times> string) list \<Rightarrow> gui" where
  "form_with inputs =
     \<lparr>var = (\<lambda>feat. case map_of inputs feat of None \<Rightarrow> [] | Some v \<Rightarrow> v),
      error_labels = map (\<lambda>feat. (feat, [])) REQUIRED_FEATURES,
      pred_var = ''-'', prob_var = ''-'', dialogs = []\<rparr>"

text \<open>
  A collaborator for the examples: the frame is the row with its column names, the model
  has no \<^verbatim>\<open>predict_proba\<close> method and predicts class 1.
\<close>

definition label_only_model :: "(row \<times> string list, unit) collaborator" where
  "label_only_model =
     \<lparr>DataFrame = (\<lambda>r columns. Inr (r, columns)),
      predict_proba = (\<lambda>X. Inl AttributeError),
      predict = (\<lambda>X. Inr 1),
      format_prob = (\<lambda>p. [])\<rparr>"

text \<open>A sidecar list with every required name but the last, \<^verbatim>\<open>"G2"\<close>.\<close>

definition without_G2 :: json where
  "without_G2 = JArr (map JStr (butlast REQUIRED_FEATURES))"

subsection \<open>The value of a float\<close>

text \<open>
  The rational number a finite float stands for, and truncation toward zero, to state
  what \<^verbatim>\<open>int\<close> does to a float with a fractional part.
\<close>

definition float_value :: "bool \<Rightarrow> int \<Rightarrow> int \<Rightarrow> rat" where
  "float_value neg m e =
     (if neg then - 1 else 1) * of_int m *
     (if 0 \<le> e then 2 ^ nat e else 1 / 2 ^ nat (- e))"

definition trunc_toward_zero :: "rat \<Rightarrow> int" where
  "trunc_toward_zero r = (if r < 0 then \<lceil>r\<rceil> else \<lfloor>r\<rfloor>)"

subsection \<open>The loop invariant\<close>

text \<open>
  The dictionaries after the loop, given their contents before it: a feature of the list
  has an entry in \<^verbatim>\<open>errors\<close> when its field fails, and in \<^verbatim>\<open>mapped\<close> otherwise.
\<close>

definition loop_post ::
  "(string \<Rightarrow> string) \<Rightarrow> string list \<Rightarrow>
   (string \<times> string) list \<times> (string \<times> enc) list \<Rightarrow>
   (string \<times> string) list \<times> (string \<times> enc) list \<Rightarrow> bool" where
  "loop_post vars fs before after =
     ((\<forall>f. map_of (fst after) f =
         (if f \<in> set fs \<and> \<not> validates f (vars f)
          then Some (projl (field_result f (vars f))) else map_of (fst before) f)) \<and>
      (\<forall>f. map_of (snd after) f =
         (if f \<in> set fs \<and> validates f (vars f)
          then Some (projr (field_result f (vars f))) else map_of (snd before) f)) \<and>
      (distinct (map fst (fst before)) \<longrightarrow> distinct (map fst (fst after))))"

section \<open>Properties\<close>

subsection \<open>The form and the loop\<close>

lemma choose_widget:
  "(case opts of
      None \<Rightarrow> if c1 then U a else if c2 then U b else if c3 then U c else U d
    | Some om \<Rightarrow> U (E om)) =
   U (case opts of
      None \<Rightarrow> if c1 then a else if c2 then b else if c3 then c else d
    | Some om \<Rightarrow> E om)"
  by (simp split: option.splits)

lemma choose_cases:
  assumes "P a" "P b" "P c" "P d" "\<And>om. P (E om)"
  shows "P (case opts of
      None \<Rightarrow> if c1 then a else if c2 then b else if c3 then c else d
    | Some om \<Rightarrow> E om)"
  using assms by (simp split: option.splits)

lemma add_field_update: "add_field feat wv = AList.update feat (widget_of feat) wv"
  unfolding add_field_def widget_of_def Let_def add_spinbox_def add_dropdown_def
  by (rule choose_widget)

lemma widget_of_cases:
  "(\<exists>om. widget_of feat = (''dropdown'', Options om)) \<or>
   (\<exists>lo hi. widget_of feat = (''spin'', Bounds lo hi))"
  unfolding widget_of_def
  by (rule choose_cases
      [where P = "\<lambda>w. (\<exists>om. w = (''dropdown'', Options om)) \<or>
                       (\<exists>lo hi. w = (''spin'', Bounds lo hi))"])
     blast+

lemma map_of_foldl_add_field:
  "map_of (foldl (\<lambda>wv feat. add_field feat wv) wv0 fs) f =
     (if f \<in> set fs then Some (widget_of f) else map_of wv0 f)"
  by (induction fs arbitrary: wv0 rule: rev_induct) (auto simp: add_field_update update_conv')

lemma map_of_widget_vars:
  "map_of (widget_vars FO) f = (if f \<in> set FO then Some (widget_of f) else None)"
  by (simp add: widget_vars_def map_of_foldl_add_field)

lemma spin_not_dropdown: "''spin'' \<noteq> ''dropdown''"
  by simp

lemma gather_field_result:
  assumes "map_of wv feat = Some (widget_of feat)"
  shows "gather_field wv vars feat (errors, mapped) =
     Inr (case field_result feat (vars feat) of
            Inl msg \<Rightarrow> (AList.update feat msg errors, mapped)
          | Inr v \<Rightarrow> (errors, AList.update feat v mapped))"
proof -
  from widget_of_cases [of feat] show ?thesis
  proof (elim disjE exE)
    fix om assume "widget_of feat = (''dropdown'', Options om)"
    with assms show ?thesis
      by (simp add: gather_field_def field_result_def split: option.splits)
  next
    fix lo hi assume "widget_of feat = (''spin'', Bounds lo hi)"
    with assms show ?thesis
      by (simp add: gather_field_def field_result_def spin_not_dropdown split: option.splits)
  qed
qed

lemma loop_post_Nil: "loop_post vars [] em em"
  by (simp add: loop_post_def)

lemma loop_post_Cons:
  assumes "loop_post vars fs
      (case field_result a (vars a) of
         Inl msg \<Rightarrow> (AList.update a msg errors, mapped)
       | Inr v \<Rightarrow> (errors, AList.update a v mapped)) after"
  shows "loop_post vars (a # fs) (errors, mapped) after"
proof (cases "field_result a (vars a)")
  case (Inl msg)
  with assms show ?thesis
    by (auto simp: loop_post_def validates_def update_conv' distinct_update)
next
  case (Inr v)
  with assms show ?thesis
    by (auto simp: loop_post_def validates_def update_conv')
qed

lemma gather_loop_result:
  assumes "\<forall>f\<in>set fs. map_of wv f = Some (widget_of f)"
  shows "\<exists>after. gather_loop wv vars fs em = Inr after \<and> loop_post vars fs em after"
  using assms
proof (induction fs arbitrary: em)
  case Nil
  show ?case by (simp add: loop_post_Nil)
next
  case (Cons a fs)
  obtain errors mapped where em: "em = (errors, mapped)" by (cases em)
  let ?em' = "case field_result a (vars a) of
         Inl msg \<Rightarrow> (AList.update a msg errors, mapped)
       | Inr v \<Rightarrow> (errors, AList.update a v mapped)"
  from Cons.prems have a: "map_of wv a = Some (widget_of a)"
    and fs: "\<forall>f\<in>set fs. map_of wv f = Some (widget_of f)" by simp_all
  from Cons.IH [OF fs, of ?em'] obtain after where
    "gather_loop wv vars fs ?em' = Inr after" and "loop_post vars fs ?em' after"
    by blast
  then show ?case
    using a em by (auto simp: gather_field_result intro: loop_post_Cons)
qed

lemma lookup_all_result:
  assumes "\<forall>f\<in>set fs. \<exists>v. map_of mapped f = Some v"
  shows "lookup_all mapped fs = Inr (map (\<lambda>f. the (map_of mapped f)) fs)"
  using assms by (induction fs) auto

lemma map_of_all_None: "(\<forall>k. map_of xs k = None) \<longleftrightarrow> xs = []"
  by (cases xs) (auto split: if_splits)

text \<open>
  The outcome of \<open>gather_and_map_inputs\<close> on a form whose widget dictionary has the
  entries of \<open>widget_vars FO\<close>, in any key order.
\<close>

lemma gather_result:
  assumes wv: "map_of wv = map_of (widget_vars FO)"
  shows "\<exists>r. gather_and_map_inputs FO wv g = Inr r \<and>
     (case r of
        Valid xs \<Rightarrow>
          (\<forall>f\<in>set FO. validates f (var g f)) \<and>
          xs = map (\<lambda>f. projr (field_result f (var g f))) FO
      | Invalid errs \<Rightarrow>
          errs \<noteq> [] \<and> distinct (map fst errs) \<and>
          (\<forall>f. map_of errs f =
             (if f \<in> set FO \<and> \<not> validates f (var g f)
              then Some (projl (field_result f (var g f))) else None)))"
proof -
  have "\<forall>f\<in>set FO. map_of wv f = Some (widget_of f)"
    by (simp add: wv map_of_widget_vars)
  from gather_loop_result [OF this, of "var g" "([], [])"]
  obtain errors mapped where
    loop: "gather_loop wv (var g) FO ([], []) = Inr (errors, mapped)" and
    post: "loop_post (var g) FO ([], []) (errors, mapped)"
    by (metis surj_pair)
  from post have
    errs: "\<forall>f. map_of errors f =
        (if f \<in> set FO \<and> \<not> validates f (var g f)
         then Some (projl (field_result f (var g f))) else None)" and
    vals: "\<forall>f. map_of mapped f =
        (if f \<in> set FO \<and> validates f (var g f)
         then Some (projr (field_result f (var g f))) else None)" and
    dist: "distinct (map fst errors)"
    by (simp_all add: loop_post_def)
  show ?thesis
  proof (cases "errors = []")
    case True
    with errs have ok: "\<forall>f\<in>set FO. validates f (var g f)"
      by (metis map_of.simps(1) option.distinct(1))
    with vals have "\<forall>f\<in>set FO. \<exists>v. map_of mapped f = Some v" by simp
    then have "lookup_all mapped FO = Inr (map (\<lambda>f. the (map_of mapped f)) FO)"
      by (rule lookup_all_result)
    moreover have "map (\<lambda>f. the (map_of mapped f)) FO =
        map (\<lambda>f. projr (field_result f (var g f))) FO"
      using ok vals by simp
    ultimately show ?thesis
      using loop True ok by (simp add: gather_and_map_inputs_def)
  next
    case False
    then show ?thesis
      using loop errs dist by (simp add: gather_and_map_inputs_def)
  qed
qed

lemma validates_iff: "validates f v \<longleftrightarrow> (\<exists>x. field_result f v = Inr x)"
  by (simp add: validates_def split: sum.splits)

lemma not_validates_iff: "\<not> validates f v \<longleftrightarrow> (\<exists>msg. field_result f v = Inl msg)"
  by (simp add: validates_def split: sum.splits)

lemma distinct_singleton_list:
  assumes "distinct xs" and "set xs = {x}"
  shows "xs = [x]"
proof (cases xs)
  case Nil
  with assms show ?thesis by simp
next
  case (Cons a rest)
  with assms have "a = x" and "set rest \<subseteq> {x}" and "x \<notin> set rest" by auto
  then have "rest = []" by (cases rest) auto
  with Cons \<open>a = x\<close> show ?thesis by simp
qed

lemma gather_cases:
  obtains (valid) xs where
      "gather_and_map_inputs FO (widget_vars FO) g = Inr (Valid xs)"
      "\<forall>f\<in>set FO. validates f (var g f)"
      "xs = map (\<lambda>f. projr (field_result f (var g f))) FO"
  | (invalid) errs where
      "gather_and_map_inputs FO (widget_vars FO) g = Inr (Invalid errs)"
      "errs \<noteq> []" "distinct (map fst errs)"
      "\<forall>f. map_of errs f =
             (if f \<in> set FO \<and> \<not> validates f (var g f)
              then Some (projl (field_result f (var g f))) else None)"
proof -
  from gather_result [OF refl, of FO g] obtain r where
    r: "gather_and_map_inputs FO (widget_vars FO) g = Inr r" and
    c: "case r of
        Valid xs \<Rightarrow>
          (\<forall>f\<in>set FO. validates f (var g f)) \<and>
          xs = map (\<lambda>f. projr (field_result f (var g f))) FO
      | Invalid errs \<Rightarrow>
          errs \<noteq> [] \<and> distinct (map fst errs) \<and>
          (\<forall>f. map_of errs f =
             (if f \<in> set FO \<and> \<not> validates f (var g f)
              then Some (projl (field_result f (var g f))) else None))"
    by blast
  show thesis
  proof (cases r)
    case (Invalid errs)
    with r c show thesis by (intro invalid [of errs]) simp_all
  next
    case (Valid xs)
    with r c show thesis by (intro valid [of xs]) simp_all
  qed
qed

lemma field_accepted:
  assumes "feat \<in> set FO" and "field_result feat (var g feat) = Inr v"
  shows "(\<forall>errs. gather_and_map_inputs FO (widget_vars FO) g = Inr (Invalid errs) \<longrightarrow>
            map_of errs feat = None) \<and>
         (\<forall>xs. gather_and_map_inputs FO (widget_vars FO) g = Inr (Valid xs) \<longrightarrow>
            length xs = length FO \<and> (\<forall>k<length FO. FO ! k = feat \<longrightarrow> xs ! k = v))"
proof (cases rule: gather_cases [of FO g])
  case (valid xs)
  with assms show ?thesis by auto
next
  case (invalid errs)
  with assms show ?thesis by (auto simp: validates_def)
qed

lemma field_rejected:
  assumes "feat \<in> set FO" and "field_result feat (var g feat) = Inl msg"
  shows "\<exists>errs. gather_and_map_inputs FO (widget_vars FO) g = Inr (Invalid errs) \<and>
           map_of errs feat = Some msg \<and>
           (\<forall>f m. (f, m) \<in> set errs \<longleftrightarrow> f \<in> set FO \<and> field_result f (var g f) = Inl m) \<and>
           ((\<forall>f\<in>set FO. f \<noteq> feat \<longrightarrow> validates f (var g f)) \<longrightarrow> errs = [(feat, msg)])"
proof (cases rule: gather_cases [of FO g])
  case (valid xs)
  with assms show ?thesis by (auto simp: validates_def)
next
  case (invalid errs)
  have mem: "(f, m) \<in> set errs \<longleftrightarrow> f \<in> set FO \<and> field_result f (var g f) = Inl m" for f m
  proof -
    have "(f, m) \<in> set errs \<longleftrightarrow> map_of errs f = Some m"
      using invalid(3) by simp
    also have "\<dots> \<longleftrightarrow> f \<in> set FO \<and> field_result f (var g f) = Inl m"
      using invalid(4) by (cases "field_result f (var g f)") (auto simp: validates_def)
    finally show ?thesis .
  qed
  have single: "errs = [(feat, msg)]" if others: "\<forall>f\<in>set FO. f \<noteq> feat \<longrightarrow> validates f (var g f)"
  proof -
    have "(f, m) \<in> set errs \<longleftrightarrow> (f, m) = (feat, msg)" for f m
    proof (cases "f = feat")
      case True
      with mem assms show ?thesis by auto
    next
      case False
      with others have "f \<in> set FO \<Longrightarrow> validates f (var g f)" by simp
      with False mem [of f m] show ?thesis by (auto simp: validates_iff)
    qed
    then have "set errs = {(feat, msg)}" by auto
    moreover have "distinct errs" using invalid(3) by (simp add: distinct_map)
    ultimately show ?thesis by (rule distinct_singleton_list [rotated])
  qed
  from mem assms have "map_of errs feat = Some msg"
    using invalid(3) by simp
  with invalid(1) mem single show ?thesis by blast
qed


lemma field_stored:
  assumes "feat \<in> set FO" and "field_result feat (var g feat) = Inr v"
  shows "\<exists>errors mapped.
           gather_loop (widget_vars FO) (var g) FO ([], []) = Inr (errors, mapped) \<and>
           map_of mapped feat = Some v \<and> map_of errors feat = None"
proof -
  have "\<forall>f\<in>set FO. map_of (widget_vars FO) f = Some (widget_of f)"
    by (simp add: map_of_widget_vars)
  from gather_loop_result [OF this, of "var g" "([], [])"]
  obtain errors mapped where
    loop: "gather_loop (widget_vars FO) (var g) FO ([], []) = Inr (errors, mapped)" and
    post: "loop_post (var g) FO ([], []) (errors, mapped)"
    by (metis surj_pair)
  from assms(2) have "validates feat (var g feat)" by (simp add: validates_def)
  with post assms have "map_of mapped feat = Some v" and "map_of errors feat = None"
    by (simp_all add: loop_post_def)
  with loop show ?thesis by blast
qed

lemma field_encoded:
  assumes "feat \<in> set FO" and "field_result feat (var g feat) = Inr v"
    and "\<forall>f\<in>set FO. validates f (var g f)"
  shows "\<exists>xs. gather_and_map_inputs FO (widget_vars FO) g = Inr (Valid xs) \<and>
           length xs = length FO \<and> (\<forall>k<length FO. FO ! k = feat \<longrightarrow> xs ! k = v)"
proof (cases rule: gather_cases [of FO g])
  case (valid xs)
  with assms(2) show ?thesis by auto
next
  case (invalid errs)
  with assms(3) have "\<forall>f. map_of errs f = None" by simp
  with invalid(2) show ?thesis by (simp add: map_of_all_None)
qed

lemma FIELD_INFO_MAP_eq: "FIELD_INFO_MAP = FIELD_INFO"
  by code_simp

lemma widget_of_options:
  assumes "map_of FIELD_INFO feat = Some (Some choices)"
  shows "widget_of feat = (''dropdown'', Options choices)"
  using assms by (simp add: widget_of_def FIELD_INFO_MAP_eq)

lemma choose_if:
  assumes "P a" "P b" "P c" "P d"
  shows "P (if c1 then a else if c2 then b else if c3 then c else d)"
  using assms by simp

lemma widget_of_numeric:
  assumes "map_of FIELD_INFO feat = None \<or> map_of FIELD_INFO feat = Some None"
  shows "\<exists>lo hi. widget_of feat = (''spin'', Bounds lo hi)"
proof -
  have "(case map_of FIELD_INFO_MAP feat of None \<Rightarrow> None | Some opts \<Rightarrow> opts) = None"
    using assms by (auto simp: FIELD_INFO_MAP_eq)
  moreover have "\<exists>lo hi.
      (if feat = ''age'' then (''spin'', Bounds 10 30)
       else if feat = ''absences'' then (''spin'', Bounds 0 93)
       else if feat = ''G1'' \<or> feat = ''G2'' then (''spin'', Bounds 0 20)
       else (''spin'', Bounds 0 100)) = (''spin'', Bounds lo hi)"
    by (rule choose_if [where P = "\<lambda>w. \<exists>lo hi. w = (''spin'', Bounds lo hi)"]) blast+
  ultimately show ?thesis
    unfolding widget_of_def by (simp only: option.case)
qed

lemma field_result_options:
  assumes "widget_of feat = (t, Options choices)"
  shows "field_result feat val =
     (case map_of choices val of
        None \<Rightarrow> Inl ''Choose a valid option'' | Some v \<Rightarrow> Inr v)"
  using assms by (simp add: field_result_def)

lemma field_result_bounds:
  assumes "widget_of feat = (t, Bounds lo hi)"
  shows "field_result feat val =
     (case safe_cast_int val of
        None \<Rightarrow> Inl ''Enter a number'' | Some i \<Rightarrow> Inr (EInt i))"
  using assms by (simp add: field_result_def)

lemma example_gather:
  "gather_and_map_inputs REQUIRED_FEATURES (widget_vars REQUIRED_FEATURES)
     (form_with example_inputs) =
   Inr (Valid
        [EStr ''GP'', EStr ''F'', EInt 17, EStr ''U'', EStr ''GT3'', EStr ''T'', EInt 4,
         EInt 2, EStr ''teacher'', EStr ''other'', EStr ''course'', EStr ''mother'', EInt 1,
         EInt 2, EInt 2, EInt 1, EInt 0, EInt 0, EInt 1, EInt 1, EInt 1, EInt 1, EInt 0,
         EInt 4, EInt 3, EInt 2, EInt 1, EInt 1, EInt 5, EInt 6, EInt 12, EInt 11])"
  by code_simp

lemma example_three_errors:
  "gather_and_map_inputs REQUIRED_FEATURES (widget_vars REQUIRED_FEATURES)
     (form_with (AList.update ''school'' ''gp''
        (AList.update ''G1'' [] (AList.update ''sex'' ''X'' example_inputs)))) =
   Inr (Invalid [(''school'', ''Choose a valid option''), (''sex'', ''Choose a valid option''),
                 (''G1'', ''Enter a number'')])"
  by code_simp

lemma address_choices:
  "map_of FIELD_INFO ''address'' =
     Some (Some [(''U (urban)'', EStr ''U''), (''R (rural)'', EStr ''R'')])"
  by code_simp

lemma others_valid_address:
  "list_all (\<lambda>f. f = ''address'' \<or>
      validates f (var (form_with (AList.update ''address'' ''u (urban)'' example_inputs)) f))
     REQUIRED_FEATURES"
  by code_simp

subsection \<open>Truncation and the sign of the mantissa\<close>

lemma floor_div_pow2: "\<lfloor>(of_int m :: rat) / 2 ^ k\<rfloor> = m div 2 ^ k"
  by (metis floor_divide_of_int_eq of_int_numeral of_int_power)

lemma trunc_toward_zero_float_value:
  assumes "0 \<le> m"
  shows "trunc_toward_zero (float_value neg m e) = (if neg then - trunc_mag m e else trunc_mag m e)"
proof (cases "0 \<le> e")
  case True
  then have v: "float_value neg m e = of_int ((if neg then - 1 else 1) * m * 2 ^ nat e)"
    by (simp add: float_value_def)
  have "0 \<le> m * 2 ^ nat e" using assms by simp
  show ?thesis unfolding v trunc_toward_zero_def using True assms
    by (auto simp: trunc_mag_def simp del: of_int_mult of_int_minus of_int_power)
next
  case False
  let ?q = "(of_int m :: rat) / 2 ^ nat (- e)"
  have q0: "0 \<le> ?q" using assms by simp
  have v: "float_value neg m e = (if neg then - ?q else ?q)"
    using False by (simp add: float_value_def)
  have fl: "\<lfloor>?q\<rfloor> = m div 2 ^ nat (- e)" by (rule floor_div_pow2)
  show ?thesis
  proof (cases neg)
    case True
    have c: "\<lceil>- ?q\<rceil> = - \<lfloor>?q\<rfloor>" by (simp add: ceiling_def)
    show ?thesis
    proof (cases "?q = 0")
      case True
      with fl have "m div 2 ^ nat (- e) = 0" by simp
      with True v \<open>neg\<close> \<open>\<not> 0 \<le> e\<close> show ?thesis
        by (simp add: trunc_toward_zero_def trunc_mag_def)
    next
      case False
      with q0 have "- ?q < 0" by linarith
      with c fl v \<open>neg\<close> \<open>\<not> 0 \<le> e\<close> show ?thesis
        by (simp add: trunc_toward_zero_def trunc_mag_def)
    qed
  next
    case False
    with v fl q0 \<open>\<not> 0 \<le> e\<close> show ?thesis
      by (auto simp: trunc_toward_zero_def trunc_mag_def)
  qed
qed

lemma has_fraction_iff:
  "has_fraction (Finite neg m e) \<longleftrightarrow> float_value neg m e \<notin> \<int>"
proof (cases "0 \<le> e")
  case True
  then have "float_value neg m e = of_int ((if neg then - 1 else 1) * m * 2 ^ nat e)"
    by (simp add: float_value_def)
  then have "float_value neg m e \<in> \<int>" by (simp only: Ints_of_int)
  with True show ?thesis by (simp add: has_fraction_def)
next
  case False
  let ?k = "nat (- e)"
  let ?q = "(of_int m :: rat) / 2 ^ ?k"
  have v: "float_value neg m e = (if neg then - ?q else ?q)"
    using False by (simp add: float_value_def)
  have "?q \<in> \<int> \<longleftrightarrow> m mod 2 ^ ?k = 0"
  proof
    assume "?q \<in> \<int>"
    then obtain z where "?q = of_int z" by (auto elim: Ints_cases)
    then have "(of_int m :: rat) = of_int (z * 2 ^ ?k)" by (simp add: field_simps)
    then have "m = z * 2 ^ ?k" by (simp only: of_int_eq_iff)
    then show "m mod 2 ^ ?k = 0" by simp
  next
    assume "m mod 2 ^ ?k = 0"
    then obtain z where "m = 2 ^ ?k * z" by (auto simp: mod_eq_0_iff_dvd)
    then have "?q = of_int z" by simp
    then show "?q \<in> \<int>" by (simp only: Ints_of_int)
  qed
  moreover have "float_value neg m e \<in> \<int> \<longleftrightarrow> ?q \<in> \<int>"
    using v by (auto dest: Ints_minus)
  ultimately show ?thesis using False by (simp add: has_fraction_def)
qed


lemma digits_val_nonneg:
  assumes "list_all Py_ISDIGIT ds"
  shows "0 \<le> digits_val ds"
proof -
  have "0 \<le> foldl (\<lambda>acc c. 10 * acc + ((of_char c :: int) - 48)) a ds"
    if "0 \<le> a" "list_all Py_ISDIGIT ds" for a
    using that
  proof (induction ds arbitrary: a)
    case Nil
    then show ?case by simp
  next
    case (Cons c cs)
    from Cons.prems have "48 \<le> (of_char c :: nat)" by (simp add: Py_ISDIGIT_def)
    then have "48 \<le> (of_char c :: int)"
      by (metis of_nat_le_iff of_nat_numeral of_nat_of_char)
    with Cons.prems have "0 \<le> 10 * a + ((of_char c :: int) - 48)" by simp
    with Cons show ?case by simp
  qed
  with assms show ?thesis by (simp add: digits_val_def)
qed

lemma round_half_even_nonneg:
  assumes "0 \<le> num" "0 < den"
  shows "0 \<le> round_half_even num den"
proof -
  from assms have "0 \<le> num div den" by (simp add: pos_imp_zdiv_nonneg_iff)
  then show ?thesis by (simp add: round_half_even_def Let_def)
qed

lemma to_double_nonneg:
  assumes "0 \<le> a" "0 < b" "to_double neg a b = Finite s m e"
  shows "0 \<le> m"
proof (cases "a = 0")
  case True
  with assms show ?thesis by (simp add: to_double_def)
next
  case False
  define sh where "sh = max (floor_log2 a b) (- 1022) - 52"
  define n where "n = (if sh < 0 then round_half_even (a * 2 ^ nat (- sh)) b
                 else round_half_even a (b * 2 ^ nat sh))"
  have "0 \<le> n"
    using assms(1,2) by (simp add: n_def round_half_even_nonneg)
  moreover have "to_double neg a b =
      (if 0 \<le> sh \<and> 2 ^ 1024 \<le> n * 2 ^ nat sh then Infinite neg else Finite neg n sh)"
    unfolding to_double_def Let_def sh_def n_def using False by (simp only: if_False)
  ultimately show ?thesis using assms(3) by (auto split: if_splits)
qed

lemma parse_decimal_nonneg:
  assumes "parse_decimal u = Some (neg, m, k)"
  shows "0 \<le> m"
proof -
  obtain s r where sr: "parse_sign u = (s, r)" by (cases "parse_sign u")
  define ip where "ip = takeWhile Py_ISDIGIT r"
  define r1 where "r1 = dropWhile Py_ISDIGIT r"
  define fp where "fp = (case r1 of [] \<Rightarrow> [] | c # cs \<Rightarrow>
                      if c = CHR ''.'' then takeWhile Py_ISDIGIT cs else [])"
  have "list_all Py_ISDIGIT ip"
    unfolding ip_def list_all_iff by (auto dest: set_takeWhileD)
  moreover have "list_all Py_ISDIGIT fp"
    unfolding fp_def list_all_iff by (auto dest: set_takeWhileD split: list.splits)
  ultimately have "0 \<le> digits_val (ip @ fp)"
    by (intro digits_val_nonneg) simp
  moreover from assms sr have "m = digits_val (ip @ fp)"
    by (auto simp: parse_decimal_def Let_def ip_def r1_def fp_def
        split: if_splits option.splits)
  ultimately show ?thesis by simp
qed

lemma parse_inf_or_nan_not_finite: "parse_inf_or_nan u \<noteq> Some (Finite s m e)"
  by (auto simp: parse_inf_or_nan_def Let_def split: prod.splits)

lemma float_from_ascii_finite_nonneg:
  assumes "float_from_ascii x = Inr (Finite s m e)"
  shows "0 \<le> m"
proof -
  from assms obtain u where
    d: "(case parse_decimal u of
           Some (neg, m, k) \<Rightarrow>
             Inr (if 0 \<le> k then to_double neg (m * 10 ^ nat k) 1
                  else to_double neg m (10 ^ nat (- k)))
         | None \<Rightarrow>
             (case parse_inf_or_nan u of
                Some f \<Rightarrow> Inr f
              | None \<Rightarrow> Inl ValueError)) = Inr (Finite s m e)"
    by (auto simp: float_from_ascii_def Let_def split: if_splits option.splits)
  show ?thesis
  proof (cases "parse_decimal u")
    case None
    with d show ?thesis
      using parse_inf_or_nan_not_finite [of u s m e] by (auto split: option.splits)
  next
    case (Some t)
    obtain neg a k where t: "t = (neg, a, k)" by (cases t)
    from Some t have a: "0 \<le> a" by (auto dest: parse_decimal_nonneg)
    show ?thesis
    proof (cases "0 \<le> k")
      case True
      with d Some t have "to_double neg (a * 10 ^ nat k) 1 = Finite s m e" by simp
      moreover from a have "0 \<le> a * 10 ^ nat k" by simp
      ultimately show ?thesis
        using to_double_nonneg [of "a * 10 ^ nat k" 1 neg s m e] by simp
    next
      case False
      with d Some t have "to_double neg a (10 ^ nat (- k)) = Finite s m e" by simp
      with a show ?thesis
        using to_double_nonneg [of a "10 ^ nat (- k)" neg s m e] by simp
    qed
  qed
qed

lemma py_float_finite_nonneg:
  assumes "py_float x = Inr (Finite s m e)"
  shows "0 \<le> m"
proof (cases "utf8_decode (map of_char x)")
  case None
  with assms show ?thesis by (simp add: py_float_def)
next
  case (Some chs)
  with assms have "float_from_ascii
      (if list_all (\<lambda>ch. ch < 128) chs then x else to_ascii chs) = Inr (Finite s m e)"
    by (simp add: py_float_def)
  then show ?thesis by (rule float_from_ascii_finite_nonneg)
qed

lemma int_of_float_finite:
  assumes "py_float x = Inr (Finite neg m e)"
  shows "int_of_float x = Inr (trunc_toward_zero (float_value neg m e))"
  using assms py_float_finite_nonneg [OF assms]
  by (simp add: int_of_float_def py_int_def trunc_toward_zero_float_value)

subsection \<open>What the result depends on\<close>

lemma gather_field_cong:
  assumes "vars feat = vars' feat"
  shows "gather_field wv vars feat em = gather_field wv vars' feat em"
  unfolding gather_field_def assms by (rule refl)

lemma gather_loop_cong:
  assumes "\<forall>f\<in>set fs. vars f = vars' f"
  shows "gather_loop wv vars fs em = gather_loop wv vars' fs em"
  using assms
proof (induction fs arbitrary: em)
  case Nil
  show ?case by simp
next
  case (Cons a fs)
  from Cons.prems have "vars a = vars' a" and rest: "\<forall>f\<in>set fs. vars f = vars' f"
    by simp_all
  then have a: "gather_field wv vars a em = gather_field wv vars' a em"
    by (intro gather_field_cong)
  show ?case
    unfolding gather_loop.simps a using Cons.IH [OF rest] by (simp split: sum.splits)
qed

lemma gather_cong:
  assumes "\<forall>f\<in>set FO. var g f = var g' f"
  shows "gather_and_map_inputs FO wv g = gather_and_map_inputs FO wv g'"
  using gather_loop_cong [OF assms] by (simp add: gather_and_map_inputs_def)

lemma var_predict_block: "var (predict_block M FO payload g) = var g"
proof (cases "DataFrame M (RowList payload) FO")
  case (Inl e)
  then show ?thesis by (simp add: predict_block_def)
next
  case (Inr X)
  then show ?thesis
    by (cases "predict M X") (simp_all add: predict_block_def Let_def)
qed

lemma var_predict_action:
  assumes "predict_action M FO wv g = Inr g'"
  shows "var g' = var g"
proof -
  let ?g = "g\<lparr>error_labels := map (\<lambda>(feat, text). (feat, [])) (error_labels g)\<rparr>"
  have eq: "predict_action M FO wv g =
     (case gather_and_map_inputs FO wv ?g of
           Inl e \<Rightarrow> Inl e
         | Inr (Invalid errors) \<Rightarrow>
             (case show_errors errors (error_labels ?g) of
                Inl e \<Rightarrow> Inl e
              | Inr labels \<Rightarrow>
                  Inr (?g\<lparr>error_labels := labels,
                         dialogs := dialogs ?g @
                           [(''Input Error'', Text ''Fix the highlighted fields.'')]\<rparr>))
         | Inr (Valid payload) \<Rightarrow> Inr (predict_block M FO payload ?g))"
    unfolding predict_action_def Let_def by (rule refl)
  show ?thesis
  proof (cases "gather_and_map_inputs FO wv ?g")
    case (Inl e)
    with assms eq show ?thesis by simp
  next
    case (Inr r)
    show ?thesis
    proof (cases r)
      case (Valid payload)
      with Inr assms eq have "g' = predict_block M FO payload ?g" by simp
      then show ?thesis by (simp add: var_predict_block)
    next
      case (Invalid errors)
      show ?thesis
      proof (cases "show_errors errors (error_labels ?g)")
        case (Inl e)
        with Invalid Inr assms eq show ?thesis by simp
      next
        case (Inr labels)
        with Invalid \<open>gather_and_map_inputs FO wv ?g = Inr r\<close> assms eq
        have "g' = ?g\<lparr>error_labels := labels,
                         dialogs := dialogs ?g @
                           [(''Input Error'', Text ''Fix the highlighted fields.'')]\<rparr>"
          by simp
        then show ?thesis by simp
      qed
    qed
  qed
qed

lemma predict_action_valid:
  assumes "gather_and_map_inputs FO wv g = Inr (Valid payload)"
  shows "predict_action M FO wv g =
     Inr (predict_block M FO payload
            (g\<lparr>error_labels := map (\<lambda>(feat, text). (feat, [])) (error_labels g)\<rparr>))"
proof -
  let ?g = "g\<lparr>error_labels := map (\<lambda>(feat, text). (feat, [])) (error_labels g)\<rparr>"
  have "gather_and_map_inputs FO wv ?g = gather_and_map_inputs FO wv g"
    by (intro gather_cong) simp
  with assms show ?thesis unfolding predict_action_def Let_def by simp
qed

subsection \<open>The membership test on the sidecar list\<close>

lemma REQUIRED_eq: "REQUIRED = REQUIRED_FEATURES"
  by (simp add: REQUIRED_def REQUIRED_FEATURES_def)

lemma all_in_True_iff:
  "all_in fs j = Inr True \<longleftrightarrow> (\<forall>f\<in>set fs. py_in f j = Inr True)"
proof (induction fs)
  case Nil
  show ?case by simp
next
  case (Cons f fs)
  show ?case
  proof (cases "py_in f j")
    case (Inl e)
    then show ?thesis by simp
  next
    case (Inr b)
    with Cons show ?thesis by (cases b) simp_all
  qed
qed

lemma FEATURE_ORDER_desktop_eq:
  "FEATURE_ORDER_desktop sc =
     Inr (case sc of
            Content j \<Rightarrow>
              if all_in REQUIRED_FEATURES j = Inr True then j
              else JArr (map JStr REQUIRED_FEATURES)
          | _ \<Rightarrow> JArr (map JStr REQUIRED_FEATURES))"
proof (cases sc)
  case (Content j)
  then show ?thesis
    by (cases "all_in REQUIRED_FEATURES j") (auto simp: FEATURE_ORDER_desktop_def)
qed (simp_all add: FEATURE_ORDER_desktop_def)

subsection \<open>The encoded list of a fully valid form\<close>

text \<open>
  C1. When every field of the feature order validates, \<open>gather_and_map_inputs\<close> returns
  the encoded list: it has one entry for each position of the feature order, and the
  entry at position \<open>i\<close> is the encoded value of the feature at position \<open>i\<close>. Only the
  entries of the widget dictionary matter, not the order of its keys.
\<close>

theorem encode_complete:
  assumes "map_of wv = map_of (widget_vars FO)"
    and "\<forall>f\<in>set FO. validates f (var g f)"
  shows "\<exists>xs. gather_and_map_inputs FO wv g = Inr (Valid xs) \<and>
           length xs = length FO \<and>
           (\<forall>i<length FO. field_result (FO ! i) (var g (FO ! i)) = Inr (xs ! i))"
proof -
  from gather_result [OF assms(1), of g] obtain r where
    r: "gather_and_map_inputs FO wv g = Inr r" and
    c: "case r of
        Valid xs \<Rightarrow>
          (\<forall>f\<in>set FO. validates f (var g f)) \<and>
          xs = map (\<lambda>f. projr (field_result f (var g f))) FO
      | Invalid errs \<Rightarrow>
          errs \<noteq> [] \<and> distinct (map fst errs) \<and>
          (\<forall>f. map_of errs f =
             (if f \<in> set FO \<and> \<not> validates f (var g f)
              then Some (projl (field_result f (var g f))) else None))"
    by blast
  show ?thesis
  proof (cases r)
    case (Invalid errs)
    with c assms(2) have "errs \<noteq> []" and "\<forall>f. map_of errs f = None"
      by auto
    then show ?thesis by (simp add: map_of_all_None)
  next
    case (Valid xs)
    with c have xs: "xs = map (\<lambda>f. projr (field_result f (var g f))) FO" by simp
    have "field_result (FO ! i) (var g (FO ! i)) = Inr (xs ! i)" if "i < length FO" for i
    proof -
      from that assms(2) have "validates (FO ! i) (var g (FO ! i))" by simp
      then obtain v where "field_result (FO ! i) (var g (FO ! i)) = Inr v"
        by (auto simp: validates_iff)
      with that xs show ?thesis by simp
    qed
    with r Valid xs show ?thesis by simp
  qed
qed

lemma map_of_rev_distinct:
  "distinct (map fst xs) \<Longrightarrow> map_of (rev xs) = map_of xs"
proof (induction xs)
  case Nil
  show ?case by simp
next
  case (Cons a xs)
  then have "map_of xs (fst a) = None" and "map_of (rev xs) = map_of xs"
    by (simp_all add: map_of_eq_None_iff)
  then show ?case
    by (cases a) (auto simp: fun_eq_iff map_add_def split: option.splits)
qed

lemma distinct_widget_vars: "distinct (map fst (widget_vars FO))"
  unfolding widget_vars_def
  by (induction FO rule: rev_induct) (simp_all add: add_field_update distinct_update)

lemma example_form_validates:
  "list_all (\<lambda>f. validates f (var (form_with example_inputs) f)) REQUIRED_FEATURES"
  by code_simp

theorem encode_complete_witness:
  "map_of (rev (widget_vars REQUIRED_FEATURES)) = map_of (widget_vars REQUIRED_FEATURES) \<and>
   list_all (\<lambda>f. validates f (var (form_with example_inputs) f)) REQUIRED_FEATURES \<and>
   (\<exists>xs. gather_and_map_inputs REQUIRED_FEATURES (rev (widget_vars REQUIRED_FEATURES))
            (form_with example_inputs) = Inr (Valid xs) \<and>
          length xs = length REQUIRED_FEATURES \<and>
          (\<forall>i<length REQUIRED_FEATURES.
             field_result (REQUIRED_FEATURES ! i)
               (var (form_with example_inputs) (REQUIRED_FEATURES ! i)) = Inr (xs ! i)))"
proof -
  have keys: "map_of (rev (widget_vars REQUIRED_FEATURES)) = map_of (widget_vars REQUIRED_FEATURES)"
    by (rule map_of_rev_distinct [OF distinct_widget_vars])
  have valid: "\<forall>f\<in>set REQUIRED_FEATURES. validates f (var (form_with example_inputs) f)"
    using example_form_validates by (simp add: list_all_iff)
  from encode_complete [OF keys valid] keys example_form_validates
  show ?thesis by blast
qed

subsection \<open>Accumulation of the errors\<close>

text \<open>
  C2. On the form built from the feature order, \<open>gather_and_map_inputs\<close> never raises
  and visits every feature before it decides. It returns the encoded list only when
  every field validates. Otherwise it returns the error dictionary and no list: the
  dictionary is not empty, has one entry per key, and its items are exactly the failing
  features of the feature order, each with the message of its own check.
\<close>

theorem errors_accumulate:
  "(\<exists>xs. gather_and_map_inputs FO (widget_vars FO) g = Inr (Valid xs) \<and>
          (\<forall>f\<in>set FO. validates f (var g f))) \<or>
   (\<exists>errs. gather_and_map_inputs FO (widget_vars FO) g = Inr (Invalid errs) \<and>
          errs \<noteq> [] \<and> distinct (map fst errs) \<and>
          (\<forall>f msg. (f, msg) \<in> set errs \<longleftrightarrow>
             f \<in> set FO \<and> field_result f (var g f) = Inl msg))"
proof (cases rule: gather_cases [of FO g])
  case (valid xs)
  then show ?thesis by blast
next
  case (invalid errs)
  have "(f, msg) \<in> set errs \<longleftrightarrow> f \<in> set FO \<and> field_result f (var g f) = Inl msg" for f msg
  proof -
    have "(f, msg) \<in> set errs \<longleftrightarrow> map_of errs f = Some msg"
      using invalid(3) by simp
    also have "\<dots> \<longleftrightarrow> f \<in> set FO \<and> field_result f (var g f) = Inl msg"
      using invalid(4) by (cases "field_result f (var g f)") (auto simp: validates_def)
    finally show ?thesis .
  qed
  with invalid show ?thesis by blast
qed

theorem errors_accumulate_witness:
  "gather_and_map_inputs REQUIRED_FEATURES (widget_vars REQUIRED_FEATURES)
     (form_with (AList.update ''school'' ''gp''
        (AList.update ''G1'' [] (AList.update ''sex'' ''X'' example_inputs)))) =
   Inr (Invalid [(''school'', ''Choose a valid option''), (''sex'', ''Choose a valid option''),
                 (''G1'', ''Enter a number'')]) \<and>
   (\<exists>errs. gather_and_map_inputs REQUIRED_FEATURES (widget_vars REQUIRED_FEATURES)
       (form_with (AList.update ''school'' ''gp''
          (AList.update ''G1'' [] (AList.update ''sex'' ''X'' example_inputs)))) =
       Inr (Invalid errs) \<and>
     errs \<noteq> [] \<and> distinct (map fst errs) \<and>
     (\<forall>f msg. (f, msg) \<in> set errs \<longleftrightarrow>
        f \<in> set REQUIRED_FEATURES \<and>
        field_result f (var (form_with (AList.update ''school'' ''gp''
          (AList.update ''G1'' [] (AList.update ''sex'' ''X'' example_inputs)))) f) = Inl msg))"
  using errors_accumulate [of REQUIRED_FEATURES "form_with (AList.update ''school'' ''gp''
          (AList.update ''G1'' [] (AList.update ''sex'' ''X'' example_inputs)))"]
    example_three_errors
  by simp

subsection \<open>Categorical fields\<close>

text \<open>
  C3. Let \<open>feat\<close> be a feature of the feature order whose catalogue entry has the
  options \<open>choices\<close>. If the display string in its variable is a key of \<open>choices\<close>,
  the field validates: the loop stores the mapped value, string or integer as the
  catalogue has it, under the feature in \<^verbatim>\<open>mapped\<close> and records no error for it,
  whatever the other fields hold; and when every field of the form validates, the
  encoded list is returned and holds the mapped value at every position of the feature.
  If the display string is not a key, the result is the error dictionary with "Choose a
  valid option" for the feature; every item of the dictionary belongs to a feature whose
  own check fails, so that when all other fields validate the dictionary has this one
  item.
\<close>

theorem categorical_choice:
  assumes "feat \<in> set FO" and "map_of FIELD_INFO feat = Some (Some choices)"
  shows "(\<forall>v. map_of choices (var g feat) = Some v \<longrightarrow>
            field_result feat (var g feat) = Inr v \<and>
            (\<exists>errors mapped.
               gather_loop (widget_vars FO) (var g) FO ([], []) = Inr (errors, mapped) \<and>
               map_of mapped feat = Some v \<and> map_of errors feat = None) \<and>
            (\<forall>errs. gather_and_map_inputs FO (widget_vars FO) g = Inr (Invalid errs) \<longrightarrow>
               map_of errs feat = None) \<and>
            (\<forall>xs. gather_and_map_inputs FO (widget_vars FO) g = Inr (Valid xs) \<longrightarrow>
               length xs = length FO \<and> (\<forall>k<length FO. FO ! k = feat \<longrightarrow> xs ! k = v)) \<and>
            ((\<forall>f\<in>set FO. validates f (var g f)) \<longrightarrow>
               (\<exists>xs. gather_and_map_inputs FO (widget_vars FO) g = Inr (Valid xs) \<and>
                  length xs = length FO \<and>
                  (\<forall>k<length FO. FO ! k = feat \<longrightarrow> xs ! k = v)))) \<and>
         (map_of choices (var g feat) = None \<longrightarrow>
            (\<exists>errs. gather_and_map_inputs FO (widget_vars FO) g = Inr (Invalid errs) \<and>
               map_of errs feat = Some ''Choose a valid option'' \<and>
               (\<forall>f m. (f, m) \<in> set errs \<longleftrightarrow>
                  f \<in> set FO \<and> field_result f (var g f) = Inl m) \<and>
               ((\<forall>f\<in>set FO. f \<noteq> feat \<longrightarrow> validates f (var g f)) \<longrightarrow>
                  errs = [(feat, ''Choose a valid option'')])))"
proof -
  from assms(2) have w: "widget_of feat = (''dropdown'', Options choices)"
    by (rule widget_of_options)
  have accepted:
    "field_result feat (var g feat) = Inr v \<and>
     (\<exists>errors mapped.
        gather_loop (widget_vars FO) (var g) FO ([], []) = Inr (errors, mapped) \<and>
        map_of mapped feat = Some v \<and> map_of errors feat = None) \<and>
     (\<forall>errs. gather_and_map_inputs FO (widget_vars FO) g = Inr (Invalid errs) \<longrightarrow>
        map_of errs feat = None) \<and>
     (\<forall>xs. gather_and_map_inputs FO (widget_vars FO) g = Inr (Valid xs) \<longrightarrow>
        length xs = length FO \<and> (\<forall>k<length FO. FO ! k = feat \<longrightarrow> xs ! k = v)) \<and>
     ((\<forall>f\<in>set FO. validates f (var g f)) \<longrightarrow>
        (\<exists>xs. gather_and_map_inputs FO (widget_vars FO) g = Inr (Valid xs) \<and>
           length xs = length FO \<and>
           (\<forall>k<length FO. FO ! k = feat \<longrightarrow> xs ! k = v)))"
    if key: "map_of choices (var g feat) = Some v" for v
  proof -
    from key w have r: "field_result feat (var g feat) = Inr v"
      by (simp add: field_result_options)
    have "(\<forall>f\<in>set FO. validates f (var g f)) \<longrightarrow>
        (\<exists>xs. gather_and_map_inputs FO (widget_vars FO) g = Inr (Valid xs) \<and>
           length xs = length FO \<and>
           (\<forall>k<length FO. FO ! k = feat \<longrightarrow> xs ! k = v))"
      using field_encoded [OF assms(1) r] by (intro impI)
    with r field_stored [OF assms(1) r] field_accepted [OF assms(1) r]
    show ?thesis by (intro conjI) simp_all
  qed
  have rejected:
    "\<exists>errs. gather_and_map_inputs FO (widget_vars FO) g = Inr (Invalid errs) \<and>
       map_of errs feat = Some ''Choose a valid option'' \<and>
       (\<forall>f m. (f, m) \<in> set errs \<longleftrightarrow>
          f \<in> set FO \<and> field_result f (var g f) = Inl m) \<and>
       ((\<forall>f\<in>set FO. f \<noteq> feat \<longrightarrow> validates f (var g f)) \<longrightarrow>
          errs = [(feat, ''Choose a valid option'')])"
    if "map_of choices (var g feat) = None"
  proof -
    from that w have "field_result feat (var g feat) = Inl ''Choose a valid option''"
      by (simp add: field_result_options)
    from field_rejected [OF assms(1) this] show ?thesis .
  qed
  show ?thesis
  proof (rule conjI)
    show "\<forall>v. map_of choices (var g feat) = Some v \<longrightarrow>
            field_result feat (var g feat) = Inr v \<and>
            (\<exists>errors mapped.
               gather_loop (widget_vars FO) (var g) FO ([], []) = Inr (errors, mapped) \<and>
               map_of mapped feat = Some v \<and> map_of errors feat = None) \<and>
            (\<forall>errs. gather_and_map_inputs FO (widget_vars FO) g = Inr (Invalid errs) \<longrightarrow>
               map_of errs feat = None) \<and>
            (\<forall>xs. gather_and_map_inputs FO (widget_vars FO) g = Inr (Valid xs) \<longrightarrow>
               length xs = length FO \<and> (\<forall>k<length FO. FO ! k = feat \<longrightarrow> xs ! k = v)) \<and>
            ((\<forall>f\<in>set FO. validates f (var g f)) \<longrightarrow>
               (\<exists>xs. gather_and_map_inputs FO (widget_vars FO) g = Inr (Valid xs) \<and>
                  length xs = length FO \<and>
                  (\<forall>k<length FO. FO ! k = feat \<longrightarrow> xs ! k = v)))"
      by (intro allI impI) (erule accepted)
  next
    show "map_of choices (var g feat) = None \<longrightarrow>
            (\<exists>errs. gather_and_map_inputs FO (widget_vars FO) g = Inr (Invalid errs) \<and>
               map_of errs feat = Some ''Choose a valid option'' \<and>
               (\<forall>f m. (f, m) \<in> set errs \<longleftrightarrow>
                  f \<in> set FO \<and> field_result f (var g f) = Inl m) \<and>
               ((\<forall>f\<in>set FO. f \<noteq> feat \<longrightarrow> validates f (var g f)) \<longrightarrow>
                  errs = [(feat, ''Choose a valid option'')]))"
      by (intro impI) (erule rejected)
  qed
qed

lemma example_form_all_valid:
  "\<forall>f\<in>set REQUIRED_FEATURES. validates f (var (form_with example_inputs) f)"
  using example_form_validates by (simp add: list_all_iff)

theorem categorical_choice_witness:
  "''address'' \<in> set REQUIRED_FEATURES \<and>
   map_of FIELD_INFO ''address'' =
     Some (Some [(''U (urban)'', EStr ''U''), (''R (rural)'', EStr ''R'')]) \<and>
   list_all (\<lambda>f. validates f (var (form_with example_inputs) f)) REQUIRED_FEATURES \<and>
   field_result ''address'' (var (form_with example_inputs) ''address'') = Inr (EStr ''U'') \<and>
   (\<exists>xs. gather_and_map_inputs REQUIRED_FEATURES (widget_vars REQUIRED_FEATURES)
       (form_with example_inputs) = Inr (Valid xs) \<and>
     length xs = 32 \<and> xs ! 3 = EStr ''U'') \<and>
   gather_and_map_inputs REQUIRED_FEATURES (widget_vars REQUIRED_FEATURES)
     (form_with (AList.update ''address'' ''u (urban)'' example_inputs)) =
   Inr (Invalid [(''address'', ''Choose a valid option'')])"
proof -
  let ?g1 = "form_with example_inputs"
  let ?g2 = "form_with (AList.update ''address'' ''u (urban)'' example_inputs)"
  let ?choices = "[(''U (urban)'', EStr ''U''), (''R (rural)'', EStr ''R'')]"
  have m: "''address'' \<in> set REQUIRED_FEATURES" by (simp add: REQUIRED_FEATURES_def)
  have pos: "3 < length REQUIRED_FEATURES" "REQUIRED_FEATURES ! 3 = ''address''"
    "length REQUIRED_FEATURES = 32"
    by (simp_all add: REQUIRED_FEATURES_def)
  have a: "map_of ?choices (var ?g1 ''address'') = Some (EStr ''U'')"
    by code_simp
  have b: "map_of ?choices (var ?g2 ''address'') = None"
    by code_simp
  have others: "\<forall>f\<in>set REQUIRED_FEATURES. f \<noteq> ''address'' \<longrightarrow> validates f (var ?g2 f)"
    using others_valid_address by (auto simp: list_all_iff)
  from categorical_choice [OF m address_choices, of ?g1] a
  have "field_result ''address'' (var ?g1 ''address'') = Inr (EStr ''U'')"
    by blast
  moreover from categorical_choice [OF m address_choices, of ?g1] a example_form_all_valid
  have "\<exists>xs. gather_and_map_inputs REQUIRED_FEATURES (widget_vars REQUIRED_FEATURES) ?g1 =
      Inr (Valid xs) \<and> length xs = length REQUIRED_FEATURES \<and>
      (\<forall>k<length REQUIRED_FEATURES. REQUIRED_FEATURES ! k = ''address'' \<longrightarrow>
         xs ! k = EStr ''U'')"
    by blast
  with pos have "\<exists>xs. gather_and_map_inputs REQUIRED_FEATURES (widget_vars REQUIRED_FEATURES)
      ?g1 = Inr (Valid xs) \<and> length xs = 32 \<and> xs ! 3 = EStr ''U''"
    by auto
  moreover from categorical_choice [OF m address_choices, of ?g2] b others
  have "gather_and_map_inputs REQUIRED_FEATURES (widget_vars REQUIRED_FEATURES) ?g2 =
      Inr (Invalid [(''address'', ''Choose a valid option'')])"
    by blast
  ultimately show ?thesis using m address_choices example_form_validates by blast
qed

subsection \<open>Numeric fields\<close>

text \<open>
  C4. Let \<open>feat\<close> be a feature of the feature order without options in the catalogue
  (no entry, or the entry \<open>None\<close>). If \<^verbatim>\<open>int(float(x))\<close> returns \<open>i\<close> on the
  contents of its variable, the field validates: the loop stores the integer \<open>i\<close> under
  the feature in \<^verbatim>\<open>mapped\<close> and records no error for it, and when every field of the
  form validates, the encoded list is returned and holds \<open>i\<close> at every position of
  the feature. If \<^verbatim>\<open>int(float(x))\<close> raises, the result is the error dictionary with
  "Enter a number" for the feature. "12.0" is cast to 12, and "abc" and the empty string
  raise ValueError.
\<close>

theorem numeric_cast:
  assumes "feat \<in> set FO"
    and "map_of FIELD_INFO feat = None \<or> map_of FIELD_INFO feat = Some None"
  shows "(\<forall>i. int_of_float (var g feat) = Inr i \<longrightarrow>
            field_result feat (var g feat) = Inr (EInt i) \<and>
            (\<exists>errors mapped.
               gather_loop (widget_vars FO) (var g) FO ([], []) = Inr (errors, mapped) \<and>
               map_of mapped feat = Some (EInt i) \<and> map_of errors feat = None) \<and>
            (\<forall>errs. gather_and_map_inputs FO (widget_vars FO) g = Inr (Invalid errs) \<longrightarrow>
               map_of errs feat = None) \<and>
            (\<forall>xs. gather_and_map_inputs FO (widget_vars FO) g = Inr (Valid xs) \<longrightarrow>
               length xs = length FO \<and>
               (\<forall>k<length FO. FO ! k = feat \<longrightarrow> xs ! k = EInt i)) \<and>
            ((\<forall>f\<in>set FO. validates f (var g f)) \<longrightarrow>
               (\<exists>xs. gather_and_map_inputs FO (widget_vars FO) g = Inr (Valid xs) \<and>
                  length xs = length FO \<and>
                  (\<forall>k<length FO. FO ! k = feat \<longrightarrow> xs ! k = EInt i)))) \<and>
         ((\<exists>e. int_of_float (var g feat) = Inl e) \<longrightarrow>
            (\<exists>errs. gather_and_map_inputs FO (widget_vars FO) g = Inr (Invalid errs) \<and>
               map_of errs feat = Some ''Enter a number'' \<and>
               (\<forall>f m. (f, m) \<in> set errs \<longleftrightarrow>
                  f \<in> set FO \<and> field_result f (var g f) = Inl m) \<and>
               ((\<forall>f\<in>set FO. f \<noteq> feat \<longrightarrow> validates f (var g f)) \<longrightarrow>
                  errs = [(feat, ''Enter a number'')]))) \<and>
         int_of_float ''12.0'' = Inr 12 \<and>
         int_of_float ''abc'' = Inl ValueError \<and>
         int_of_float [] = Inl ValueError"
proof -
  from widget_of_numeric [OF assms(2)] obtain lo hi where
    w: "widget_of feat = (''spin'', Bounds lo hi)" by blast
  have accepted:
    "field_result feat (var g feat) = Inr (EInt i) \<and>
     (\<exists>errors mapped.
        gather_loop (widget_vars FO) (var g) FO ([], []) = Inr (errors, mapped) \<and>
        map_of mapped feat = Some (EInt i) \<and> map_of errors feat = None) \<and>
     (\<forall>errs. gather_and_map_inputs FO (widget_vars FO) g = Inr (Invalid errs) \<longrightarrow>
        map_of errs feat = None) \<and>
     (\<forall>xs. gather_and_map_inputs FO (widget_vars FO) g = Inr (Valid xs) \<longrightarrow>
        length xs = length FO \<and>
        (\<forall>k<length FO. FO ! k = feat \<longrightarrow> xs ! k = EInt i)) \<and>
     ((\<forall>f\<in>set FO. validates f (var g f)) \<longrightarrow>
        (\<exists>xs. gather_and_map_inputs FO (widget_vars FO) g = Inr (Valid xs) \<and>
           length xs = length FO \<and>
           (\<forall>k<length FO. FO ! k = feat \<longrightarrow> xs ! k = EInt i)))"
    if cast: "int_of_float (var g feat) = Inr i" for i
  proof -
    from cast w have r: "field_result feat (var g feat) = Inr (EInt i)"
      by (simp add: field_result_bounds safe_cast_int_def)
    have "(\<forall>f\<in>set FO. validates f (var g f)) \<longrightarrow>
        (\<exists>xs. gather_and_map_inputs FO (widget_vars FO) g = Inr (Valid xs) \<and>
           length xs = length FO \<and>
           (\<forall>k<length FO. FO ! k = feat \<longrightarrow> xs ! k = EInt i))"
      using field_encoded [OF assms(1) r] by (intro impI)
    with r field_stored [OF assms(1) r] field_accepted [OF assms(1) r]
    show ?thesis by (intro conjI) simp_all
  qed
  have rejected:
    "\<exists>errs. gather_and_map_inputs FO (widget_vars FO) g = Inr (Invalid errs) \<and>
       map_of errs feat = Some ''Enter a number'' \<and>
       (\<forall>f m. (f, m) \<in> set errs \<longleftrightarrow>
          f \<in> set FO \<and> field_result f (var g f) = Inl m) \<and>
       ((\<forall>f\<in>set FO. f \<noteq> feat \<longrightarrow> validates f (var g f)) \<longrightarrow>
          errs = [(feat, ''Enter a number'')])"
    if "\<exists>e. int_of_float (var g feat) = Inl e"
  proof -
    from that obtain e where "int_of_float (var g feat) = Inl e" by blast
    with w have "field_result feat (var g feat) = Inl ''Enter a number''"
      by (simp add: field_result_bounds safe_cast_int_def)
    from field_rejected [OF assms(1) this] show ?thesis .
  qed
  have ex1: "int_of_float ''12.0'' = Inr 12" by code_simp
  have ex2: "int_of_float ''abc'' = Inl ValueError" by code_simp
  have ex3: "int_of_float [] = Inl ValueError" by code_simp
  have first: "\<forall>i. int_of_float (var g feat) = Inr i \<longrightarrow>
            field_result feat (var g feat) = Inr (EInt i) \<and>
            (\<exists>errors mapped.
               gather_loop (widget_vars FO) (var g) FO ([], []) = Inr (errors, mapped) \<and>
               map_of mapped feat = Some (EInt i) \<and> map_of errors feat = None) \<and>
            (\<forall>errs. gather_and_map_inputs FO (widget_vars FO) g = Inr (Invalid errs) \<longrightarrow>
               map_of errs feat = None) \<and>
            (\<forall>xs. gather_and_map_inputs FO (widget_vars FO) g = Inr (Valid xs) \<longrightarrow>
               length xs = length FO \<and>
               (\<forall>k<length FO. FO ! k = feat \<longrightarrow> xs ! k = EInt i)) \<and>
            ((\<forall>f\<in>set FO. validates f (var g f)) \<longrightarrow>
               (\<exists>xs. gather_and_map_inputs FO (widget_vars FO) g = Inr (Valid xs) \<and>
                  length xs = length FO \<and>
                  (\<forall>k<length FO. FO ! k = feat \<longrightarrow> xs ! k = EInt i)))"
    by (intro allI impI) (erule accepted)
  have second: "(\<exists>e. int_of_float (var g feat) = Inl e) \<longrightarrow>
            (\<exists>errs. gather_and_map_inputs FO (widget_vars FO) g = Inr (Invalid errs) \<and>
               map_of errs feat = Some ''Enter a number'' \<and>
               (\<forall>f m. (f, m) \<in> set errs \<longleftrightarrow>
                  f \<in> set FO \<and> field_result f (var g f) = Inl m) \<and>
               ((\<forall>f\<in>set FO. f \<noteq> feat \<longrightarrow> validates f (var g f)) \<longrightarrow>
                  errs = [(feat, ''Enter a number'')]))"
    by (intro impI) (erule rejected)
  from first second ex1 ex2 ex3 show ?thesis by (intro conjI)
qed

lemma age_numeric: "map_of FIELD_INFO ''age'' = Some None"
  by code_simp

lemma G1_numeric: "map_of FIELD_INFO ''G1'' = Some None"
  by code_simp

lemma others_valid_age:
  "list_all (\<lambda>f. f = ''age'' \<or>
      validates f (var (form_with (AList.update ''age'' ''abc'' example_inputs)) f))
     REQUIRED_FEATURES"
  by code_simp

theorem numeric_cast_witness:
  "''age'' \<in> set REQUIRED_FEATURES \<and>
   map_of FIELD_INFO ''age'' = Some None \<and>
   ''G1'' \<in> set REQUIRED_FEATURES \<and>
   map_of FIELD_INFO ''G1'' = Some None \<and>
   list_all (\<lambda>f. validates f (var (form_with example_inputs) f)) REQUIRED_FEATURES \<and>
   int_of_float (var (form_with example_inputs) ''age'') = Inr 17 \<and>
   var (form_with example_inputs) ''G1'' = ''12.0'' \<and>
   int_of_float (var (form_with example_inputs) ''G1'') = Inr 12 \<and>
   field_result ''age'' (var (form_with example_inputs) ''age'') = Inr (EInt 17) \<and>
   (\<exists>xs. gather_and_map_inputs REQUIRED_FEATURES (widget_vars REQUIRED_FEATURES)
       (form_with example_inputs) = Inr (Valid xs) \<and>
     length xs = 32 \<and> xs ! 2 = EInt 17 \<and> xs ! 30 = EInt 12) \<and>
   int_of_float (var (form_with (AList.update ''age'' ''abc'' example_inputs)) ''age'') =
     Inl ValueError \<and>
   gather_and_map_inputs REQUIRED_FEATURES (widget_vars REQUIRED_FEATURES)
     (form_with (AList.update ''age'' ''abc'' example_inputs)) =
   Inr (Invalid [(''age'', ''Enter a number'')]) \<and>
   int_of_float (var (form_with (AList.update ''age''
       [CHR 0xEF, CHR 0xBC, CHR 0x91, CHR 0xEF, CHR 0xBC, CHR 0x97] example_inputs)) ''age'') =
     Inr 17 \<and>
   field_result ''age'' (var (form_with (AList.update ''age''
       [CHR 0xEF, CHR 0xBC, CHR 0x91, CHR 0xEF, CHR 0xBC, CHR 0x97] example_inputs)) ''age'') =
     Inr (EInt 17)"
proof -
  let ?g1 = "form_with example_inputs"
  let ?g2 = "form_with (AList.update ''age'' ''abc'' example_inputs)"
  let ?g3 = "form_with (AList.update ''age''
       [CHR 0xEF, CHR 0xBC, CHR 0x91, CHR 0xEF, CHR 0xBC, CHR 0x97] example_inputs)"
  let ?wv = "widget_vars REQUIRED_FEATURES"
  have m: "''age'' \<in> set REQUIRED_FEATURES" and m': "''G1'' \<in> set REQUIRED_FEATURES"
    by (simp_all add: REQUIRED_FEATURES_def)
  have pos: "2 < length REQUIRED_FEATURES" "REQUIRED_FEATURES ! 2 = ''age''"
    "30 < length REQUIRED_FEATURES" "REQUIRED_FEATURES ! 30 = ''G1''"
    "length REQUIRED_FEATURES = 32"
    by (simp_all add: REQUIRED_FEATURES_def)
  have c: "map_of FIELD_INFO ''age'' = None \<or> map_of FIELD_INFO ''age'' = Some None"
    by (simp add: age_numeric)
  have c': "map_of FIELD_INFO ''G1'' = None \<or> map_of FIELD_INFO ''G1'' = Some None"
    by (simp add: G1_numeric)
  have a: "int_of_float (var ?g1 ''age'') = Inr 17" by code_simp
  have v': "var ?g1 ''G1'' = ''12.0''" by code_simp
  have a': "int_of_float (var ?g1 ''G1'') = Inr 12" by code_simp
  have b: "int_of_float (var ?g2 ''age'') = Inl ValueError" by code_simp
  have u: "int_of_float (var ?g3 ''age'') = Inr 17" by code_simp
  have others: "\<forall>f\<in>set REQUIRED_FEATURES. f \<noteq> ''age'' \<longrightarrow> validates f (var ?g2 f)"
    using others_valid_age by (auto simp: list_all_iff)
  from numeric_cast [OF m c, of ?g1] a
  have r1: "field_result ''age'' (var ?g1 ''age'') = Inr (EInt 17)"
    by blast
  from numeric_cast [OF m c, of ?g1] a example_form_all_valid
  obtain xs where xs: "gather_and_map_inputs REQUIRED_FEATURES ?wv ?g1 = Inr (Valid xs)"
    "length xs = length REQUIRED_FEATURES"
    "\<forall>k<length REQUIRED_FEATURES. REQUIRED_FEATURES ! k = ''age'' \<longrightarrow> xs ! k = EInt 17"
    by blast
  from numeric_cast [OF m' c', of ?g1] a' xs(1)
  have "\<forall>k<length REQUIRED_FEATURES. REQUIRED_FEATURES ! k = ''G1'' \<longrightarrow> xs ! k = EInt 12"
    by blast
  with xs pos have list: "\<exists>xs. gather_and_map_inputs REQUIRED_FEATURES ?wv ?g1 =
      Inr (Valid xs) \<and> length xs = 32 \<and> xs ! 2 = EInt 17 \<and> xs ! 30 = EInt 12"
    by auto
  from numeric_cast [OF m c, of ?g2] b others
  have r2: "gather_and_map_inputs REQUIRED_FEATURES ?wv ?g2 =
      Inr (Invalid [(''age'', ''Enter a number'')])"
    by blast
  from numeric_cast [OF m c, of ?g3] u
  have r3: "field_result ''age'' (var ?g3 ''age'') = Inr (EInt 17)"
    by blast
  from m m' age_numeric G1_numeric example_form_validates a v' a' r1 list b r2 u r3
  show ?thesis by (intro conjI)
qed

text \<open>
  C6. No range check: a numeric field of the feature order with the bounds
  \<open>minval\<close> and \<open>maxval\<close> whose contents cast to an integer \<open>i\<close> outside the bounds
  validates all the same: no error is recorded for it and it is encoded as \<open>i\<close>.
\<close>

theorem no_range_check:
  assumes "feat \<in> set FO"
    and "widget_of feat = (t, Bounds minval maxval)"
    and "safe_cast_int (var g feat) = Some i"
    and "i < minval \<or> maxval < i"
  shows "field_result feat (var g feat) = Inr (EInt i) \<and>
         (\<forall>errs. gather_and_map_inputs FO (widget_vars FO) g = Inr (Invalid errs) \<longrightarrow>
            map_of errs feat = None) \<and>
         (\<forall>xs. gather_and_map_inputs FO (widget_vars FO) g = Inr (Valid xs) \<longrightarrow>
            length xs = length FO \<and>
            (\<forall>k<length FO. FO ! k = feat \<longrightarrow> xs ! k = EInt i))"
proof -
  from assms(2,3) have "field_result feat (var g feat) = Inr (EInt i)"
    by (simp add: field_result_bounds)
  with field_accepted [OF assms(1) this] show ?thesis by blast
qed

lemma age_widget: "widget_of ''age'' = (''spin'', Bounds 10 30)"
  by code_simp

lemma example_age_150:
  "gather_and_map_inputs REQUIRED_FEATURES (widget_vars REQUIRED_FEATURES)
     (form_with (AList.update ''age'' ''150'' example_inputs)) =
   Inr (Valid
        [EStr ''GP'', EStr ''F'', EInt 150, EStr ''U'', EStr ''GT3'', EStr ''T'', EInt 4,
         EInt 2, EStr ''teacher'', EStr ''other'', EStr ''course'', EStr ''mother'', EInt 1,
         EInt 2, EInt 2, EInt 1, EInt 0, EInt 0, EInt 1, EInt 1, EInt 1, EInt 1, EInt 0,
         EInt 4, EInt 3, EInt 2, EInt 1, EInt 1, EInt 5, EInt 6, EInt 12, EInt 11])"
  by code_simp

theorem no_range_check_witness:
  "''age'' \<in> set REQUIRED_FEATURES \<and>
   widget_of ''age'' = (''spin'', Bounds 10 30) \<and>
   safe_cast_int (var (form_with (AList.update ''age'' ''150'' example_inputs)) ''age'') =
     Some 150 \<and>
   ((150 :: int) < 10 \<or> (30 :: int) < 150) \<and>
   field_result ''age'' (var (form_with (AList.update ''age'' ''150'' example_inputs)) ''age'') =
     Inr (EInt 150) \<and>
   (\<exists>xs. gather_and_map_inputs REQUIRED_FEATURES (widget_vars REQUIRED_FEATURES)
       (form_with (AList.update ''age'' ''150'' example_inputs)) = Inr (Valid xs) \<and>
     length xs = 32 \<and> xs ! 2 = EInt 150)"
proof -
  let ?g = "form_with (AList.update ''age'' ''150'' example_inputs)"
  have m: "''age'' \<in> set REQUIRED_FEATURES" by (simp add: REQUIRED_FEATURES_def)
  have c: "safe_cast_int (var ?g ''age'') = Some 150" by code_simp
  have out: "(150 :: int) < 10 \<or> (30 :: int) < 150" by simp
  have pos: "2 < length REQUIRED_FEATURES" "REQUIRED_FEATURES ! 2 = ''age''"
    "length REQUIRED_FEATURES = 32"
    by (simp_all add: REQUIRED_FEATURES_def)
  from no_range_check [OF m age_widget c out] example_age_150 pos
  have "field_result ''age'' (var ?g ''age'') = Inr (EInt 150)"
    and "\<exists>xs. gather_and_map_inputs REQUIRED_FEATURES (widget_vars REQUIRED_FEATURES) ?g =
        Inr (Valid xs) \<and> length xs = 32 \<and> xs ! 2 = EInt 150"
    by auto
  with m age_widget c out show ?thesis by blast
qed

subsection \<open>The cast \<^verbatim>\<open>safe_cast_int\<close>\<close>

text \<open>
  C9. \<open>safe_cast_int\<close> is total on strings: it returns the integer that
  \<^verbatim>\<open>int(float(x))\<close> returns, and \<open>None\<close> whenever \<^verbatim>\<open>int(float(x))\<close> raises, so
  no exception leaves it. "inf" and "nan" parse as floats, \<^verbatim>\<open>int\<close> raises
  OverflowError and ValueError on them, and the cast returns \<open>None\<close>; a numeric field
  holding one of them gets the error "Enter a number".
\<close>

theorem safe_cast_int_total:
  "((\<exists>i. int_of_float x = Inr i \<and> safe_cast_int x = Some i) \<or>
    (\<exists>e. int_of_float x = Inl e \<and> safe_cast_int x = None)) \<and>
   py_float ''inf'' = Inr (Infinite False) \<and>
   int_of_float ''inf'' = Inl OverflowError \<and>
   safe_cast_int ''inf'' = None \<and>
   py_float ''nan'' = Inr NaN \<and>
   int_of_float ''nan'' = Inl ValueError \<and>
   safe_cast_int ''nan'' = None \<and>
   (\<forall>feat t minval maxval. widget_of feat = (t, Bounds minval maxval) \<longrightarrow>
      field_result feat ''inf'' = Inl ''Enter a number'' \<and>
      field_result feat ''nan'' = Inl ''Enter a number'')"
proof -
  have total: "(\<exists>i. int_of_float x = Inr i \<and> safe_cast_int x = Some i) \<or>
    (\<exists>e. int_of_float x = Inl e \<and> safe_cast_int x = None)"
    by (cases "int_of_float x") (simp_all add: safe_cast_int_def)
  have inf: "py_float ''inf'' = Inr (Infinite False)" by code_simp
  have nan: "py_float ''nan'' = Inr NaN" by code_simp
  have inf_int: "int_of_float ''inf'' = Inl OverflowError"
    by (simp add: int_of_float_def inf py_int_def)
  have nan_int: "int_of_float ''nan'' = Inl ValueError"
    by (simp add: int_of_float_def nan py_int_def)
  have inf_cast: "safe_cast_int ''inf'' = None" by (simp add: safe_cast_int_def inf_int)
  have nan_cast: "safe_cast_int ''nan'' = None" by (simp add: safe_cast_int_def nan_int)
  have "field_result feat ''inf'' = Inl ''Enter a number'' \<and>
      field_result feat ''nan'' = Inl ''Enter a number''"
    if "widget_of feat = (t, Bounds minval maxval)" for feat t minval maxval
    using that by (simp add: field_result_bounds inf_cast nan_cast)
  with total inf nan inf_int nan_int inf_cast nan_cast show ?thesis by blast
qed

theorem safe_cast_int_total_witness:
  "widget_of ''age'' = (''spin'', Bounds 10 30) \<and>
   field_result ''age'' ''inf'' = Inl ''Enter a number'' \<and>
   field_result ''age'' ''nan'' = Inl ''Enter a number'' \<and>
   safe_cast_int ''1e400'' = None \<and> int_of_float ''1e400'' = Inl OverflowError"
proof -
  have big: "int_of_float ''1e400'' = Inl OverflowError" by code_simp
  from safe_cast_int_total [of "''1e400''"] big
  have "safe_cast_int ''1e400'' = None" by auto
  moreover from safe_cast_int_total [of "[]"] age_widget
  have "field_result ''age'' ''inf'' = Inl ''Enter a number''"
    and "field_result ''age'' ''nan'' = Inl ''Enter a number''"
    by blast+
  ultimately show ?thesis using age_widget big by blast
qed

text \<open>
  C10. A numeric field of the feature order whose contents parse as a finite float with
  a fractional part is not rejected: the cast returns the float truncated toward zero,
  an integer different from the float, no error is recorded for the field, and the
  encoded list holds the truncated integer. "17.9" is cast to 17 and "-3.7" to -3.
\<close>

theorem fraction_truncated:
  assumes "feat \<in> set FO"
    and "map_of FIELD_INFO feat = None \<or> map_of FIELD_INFO feat = Some None"
    and "py_float (var g feat) = Inr (Finite neg m e)"
    and "float_value neg m e \<notin> \<int>"
  shows "safe_cast_int (var g feat) = Some (trunc_toward_zero (float_value neg m e)) \<and>
         of_int (trunc_toward_zero (float_value neg m e)) \<noteq> float_value neg m e \<and>
         field_result feat (var g feat) = Inr (EInt (trunc_toward_zero (float_value neg m e))) \<and>
         (\<forall>errs. gather_and_map_inputs FO (widget_vars FO) g = Inr (Invalid errs) \<longrightarrow>
            map_of errs feat = None) \<and>
         (\<forall>xs. gather_and_map_inputs FO (widget_vars FO) g = Inr (Valid xs) \<longrightarrow>
            length xs = length FO \<and>
            (\<forall>k<length FO. FO ! k = feat \<longrightarrow>
               xs ! k = EInt (trunc_toward_zero (float_value neg m e)))) \<and>
         safe_cast_int ''17.9'' = Some 17 \<and>
         safe_cast_int ''-3.7'' = Some (- 3)"
proof -
  let ?i = "trunc_toward_zero (float_value neg m e)"
  from widget_of_numeric [OF assms(2)] obtain lo hi where
    w: "widget_of feat = (''spin'', Bounds lo hi)" by blast
  have cast: "safe_cast_int (var g feat) = Some ?i"
    using int_of_float_finite [OF assms(3)] by (simp add: safe_cast_int_def)
  with w have r: "field_result feat (var g feat) = Inr (EInt ?i)"
    by (simp add: field_result_bounds)
  have changed: "of_int ?i \<noteq> float_value neg m e"
    using assms(4) by (metis Ints_of_int)
  have ex1: "safe_cast_int ''17.9'' = Some 17" by code_simp
  have ex2: "safe_cast_int ''-3.7'' = Some (- 3)" by code_simp
  from field_accepted [OF assms(1) r] cast r changed ex1 ex2 show ?thesis by blast
qed

lemma example_fractions:
  "gather_and_map_inputs REQUIRED_FEATURES (widget_vars REQUIRED_FEATURES)
     (form_with (AList.update ''age'' ''17.9''
        (AList.update ''absences'' ''-3.7'' example_inputs))) =
   Inr (Valid
        [EStr ''GP'', EStr ''F'', EInt 17, EStr ''U'', EStr ''GT3'', EStr ''T'', EInt 4,
         EInt 2, EStr ''teacher'', EStr ''other'', EStr ''course'', EStr ''mother'', EInt 1,
         EInt 2, EInt 2, EInt 1, EInt 0, EInt 0, EInt 1, EInt 1, EInt 1, EInt 1, EInt 0,
         EInt 4, EInt 3, EInt 2, EInt 1, EInt 1, EInt 5, EInt (- 3), EInt 12, EInt 11])"
  by code_simp

theorem fraction_truncated_witness:
  "''age'' \<in> set REQUIRED_FEATURES \<and>
   map_of FIELD_INFO ''age'' = Some None \<and>
   py_float (var (form_with (AList.update ''age'' ''17.9''
        (AList.update ''absences'' ''-3.7'' example_inputs))) ''age'') =
     Inr (Finite False 5038402083120742 (- 48)) \<and>
   float_value False 5038402083120742 (- 48) \<notin> \<int> \<and>
   trunc_toward_zero (float_value False 5038402083120742 (- 48)) = 17 \<and>
   field_result ''age'' (var (form_with (AList.update ''age'' ''17.9''
        (AList.update ''absences'' ''-3.7'' example_inputs))) ''age'') = Inr (EInt 17) \<and>
   (\<exists>xs. gather_and_map_inputs REQUIRED_FEATURES (widget_vars REQUIRED_FEATURES)
       (form_with (AList.update ''age'' ''17.9''
          (AList.update ''absences'' ''-3.7'' example_inputs))) = Inr (Valid xs) \<and>
     xs ! 2 = EInt 17 \<and> xs ! 29 = EInt (- 3))"
proof -
  let ?g = "form_with (AList.update ''age'' ''17.9''
        (AList.update ''absences'' ''-3.7'' example_inputs))"
  have m: "''age'' \<in> set REQUIRED_FEATURES" by (simp add: REQUIRED_FEATURES_def)
  have c: "map_of FIELD_INFO ''age'' = None \<or> map_of FIELD_INFO ''age'' = Some None"
    by (simp add: age_numeric)
  have f: "py_float (var ?g ''age'') = Inr (Finite False 5038402083120742 (- 48))"
    by code_simp
  have "has_fraction (Finite False 5038402083120742 (- 48))" by code_simp
  then have frac: "float_value False 5038402083120742 (- 48) \<notin> \<int>"
    using has_fraction_iff by blast
  have "trunc_mag 5038402083120742 (- 48) = 17" by code_simp
  then have t: "trunc_toward_zero (float_value False 5038402083120742 (- 48)) = 17"
    by (simp add: trunc_toward_zero_float_value)
  from fraction_truncated [OF m c f frac] t
  have "field_result ''age'' (var ?g ''age'') = Inr (EInt 17)" by simp
  moreover from example_fractions
  have "\<exists>xs. gather_and_map_inputs REQUIRED_FEATURES (widget_vars REQUIRED_FEATURES) ?g =
      Inr (Valid xs) \<and> xs ! 2 = EInt 17 \<and> xs ! 29 = EInt (- 3)"
    by simp
  ultimately show ?thesis using m age_numeric f frac t by blast
qed

subsection \<open>The feature order at start\<close>

text \<open>
  C5, as the code has it. In the desktop application the construction of
  \<^verbatim>\<open>FEATURE_ORDER\<close> never raises. When the sidecar file is absent, cannot be opened
  or parsed, or holds a value that fails the membership test for some required name,
  the order is the required list in its declared order; when every required name passes
  the test, the loaded value is kept. The Streamlit application has no fallback: an
  absent or unreadable file is reported with \<^verbatim>\<open>st.error\<close> and the script stops, and
  a loaded value that lacks a required name is kept, with a warning.
\<close>

theorem desktop_order_fallback:
  "(\<exists>j. FEATURE_ORDER_desktop sc = Inr j) \<and>
   (sc = Absent \<or> (\<exists>e. sc = Unreadable e) \<or>
    (\<exists>j. sc = Content j \<and> (\<exists>f\<in>set REQUIRED_FEATURES. py_in f j \<noteq> Inr True)) \<longrightarrow>
      FEATURE_ORDER_desktop sc = Inr (JArr (map JStr REQUIRED_FEATURES))) \<and>
   (\<forall>j. sc = Content j \<and> (\<forall>f\<in>set REQUIRED_FEATURES. py_in f j = Inr True) \<longrightarrow>
      FEATURE_ORDER_desktop sc = Inr j) \<and>
   streamlit_start (Inr m) Absent =
     Inr (Stopped [StError ''Failed to load model/features: '' (Some FileNotFoundError)]) \<and>
   (\<forall>e. streamlit_start (Inr m) (Unreadable e) =
     Inr (Stopped [StError ''Failed to load model/features: '' (Some e)])) \<and>
   (\<forall>j. all_in REQUIRED j = Inr False \<longrightarrow>
      streamlit_start (Inr m) (Content j) = Inr (Running m j [StWarning order_warning]))"
proof -
  have 1: "\<exists>j. FEATURE_ORDER_desktop sc = Inr j"
    by (simp add: FEATURE_ORDER_desktop_eq)
  have 2: "FEATURE_ORDER_desktop sc = Inr (JArr (map JStr REQUIRED_FEATURES))"
    if "sc = Absent \<or> (\<exists>e. sc = Unreadable e) \<or>
      (\<exists>j. sc = Content j \<and> (\<exists>f\<in>set REQUIRED_FEATURES. py_in f j \<noteq> Inr True))"
    using that by (auto simp: FEATURE_ORDER_desktop_eq all_in_True_iff)
  have 3: "FEATURE_ORDER_desktop sc = Inr j"
    if "sc = Content j \<and> (\<forall>f\<in>set REQUIRED_FEATURES. py_in f j = Inr True)" for j
    using that by (simp add: FEATURE_ORDER_desktop_eq all_in_True_iff)
  have 4: "streamlit_start (Inr m) Absent =
     Inr (Stopped [StError ''Failed to load model/features: '' (Some FileNotFoundError)])"
    by (simp add: streamlit_start_def load_artifacts_def)
  have 5: "streamlit_start (Inr m) (Unreadable e) =
     Inr (Stopped [StError ''Failed to load model/features: '' (Some e)])" for e
    by (simp add: streamlit_start_def load_artifacts_def)
  have 6: "streamlit_start (Inr m) (Content j) = Inr (Running m j [StWarning order_warning])"
    if "all_in REQUIRED j = Inr False" for j
    using that by (simp add: streamlit_start_def load_artifacts_def)
  from 1 2 3 4 5 6 show ?thesis by blast
qed

theorem desktop_order_fallback_witness:
  "''G2'' \<in> set REQUIRED_FEATURES \<and>
   py_in ''G2'' without_G2 = Inr False \<and>
   FEATURE_ORDER_desktop (Content without_G2) = Inr (JArr (map JStr REQUIRED_FEATURES)) \<and>
   FEATURE_ORDER_desktop (Content (JArr (JStr ''id'' # map JStr REQUIRED_FEATURES))) =
     Inr (JArr (JStr ''id'' # map JStr REQUIRED_FEATURES)) \<and>
   all_in REQUIRED without_G2 = Inr False \<and>
   streamlit_start (Inr ()) (Content without_G2) =
     Inr (Running () without_G2 [StWarning order_warning])"
proof -
  have m: "''G2'' \<in> set REQUIRED_FEATURES" by (simp add: REQUIRED_FEATURES_def)
  have g2: "py_in ''G2'' without_G2 = Inr False" by code_simp
  have all: "\<forall>f\<in>set REQUIRED_FEATURES.
      py_in f (JArr (JStr ''id'' # map JStr REQUIRED_FEATURES)) = Inr True"
    by (auto simp: py_in_def)
  have no: "all_in REQUIRED without_G2 = Inr False" by code_simp
  from m g2 have "\<exists>f\<in>set REQUIRED_FEATURES. py_in f without_G2 \<noteq> Inr True" by force
  with desktop_order_fallback [of "Content without_G2" "()"]
  have a: "FEATURE_ORDER_desktop (Content without_G2) = Inr (JArr (map JStr REQUIRED_FEATURES))"
    by blast
  from desktop_order_fallback [of "Content (JArr (JStr ''id'' # map JStr REQUIRED_FEATURES))" "()"] all
  have b: "FEATURE_ORDER_desktop (Content (JArr (JStr ''id'' # map JStr REQUIRED_FEATURES))) =
     Inr (JArr (JStr ''id'' # map JStr REQUIRED_FEATURES))"
    by blast
  from desktop_order_fallback [of Absent "()"] no
  have c: "streamlit_start (Inr ()) (Content without_G2) =
     Inr (Running () without_G2 [StWarning order_warning])"
    by blast
  from m g2 a b no c show ?thesis by blast
qed

text \<open>
  In the Streamlit application an absent or unparseable sidecar file ends in an error
  shown to the user, and a list without \<^verbatim>\<open>"G2"\<close> is used as loaded, with a warning:
  the order is not the required list, and the outcome is not silent.
\<close>

theorem streamlit_no_fallback_counterexample:
  "streamlit_start (Inr ()) Absent =
     Inr (Stopped [StError ''Failed to load model/features: '' (Some FileNotFoundError)]) \<and>
   streamlit_start (Inr ()) (Unreadable JSONDecodeError) =
     Inr (Stopped [StError ''Failed to load model/features: '' (Some JSONDecodeError)]) \<and>
   streamlit_start (Inr ()) (Content without_G2) =
     Inr (Running () without_G2 [StWarning order_warning]) \<and>
   without_G2 \<noteq> JArr (map JStr REQUIRED) \<and>
   streamlit_start (Inr ()) Absent \<noteq> Inr (Running () (JArr (map JStr REQUIRED)) [])"
proof -
  have "all_in REQUIRED without_G2 = Inr False" by code_simp
  then have "streamlit_start (Inr ()) (Content without_G2) =
     Inr (Running () without_G2 [StWarning order_warning])"
    by (simp add: streamlit_start_def load_artifacts_def)
  moreover have "without_G2 \<noteq> JArr (map JStr REQUIRED)"
    by (simp add: without_G2_def REQUIRED_def REQUIRED_FEATURES_def)
  ultimately show ?thesis
    by (simp add: streamlit_start_def load_artifacts_def)
qed

subsection \<open>A failing \<^verbatim>\<open>predict_proba\<close>\<close>

text \<open>
  C7. When \<^verbatim>\<open>predict_proba\<close> raises (or the model has no such method) and
  \<^verbatim>\<open>predict\<close> returns a class, the prediction goes through. In the desktop
  application, on a valid form, \<open>predict_action\<close> sets the probability variable to
  "N/A" and the class variable to the label of the class, and shows no dialog. In the
  Streamlit application the page shows the class label and the probability "N/A".
\<close>

theorem proba_failure_degrades:
  assumes "predict_proba M X = Inl e" and "predict M X = Inr pred"
  shows "(gather_and_map_inputs FO wv g = Inr (Valid payload) \<longrightarrow>
          DataFrame M (RowList payload) FO = Inr X \<longrightarrow>
            (\<exists>g'. predict_action M FO wv g = Inr g' \<and>
                  prob_var g' = ''N/A'' \<and>
                  pred_var g' = (if pred = 1 then ''1 (High stress)'' else ''0 (Low stress)'') \<and>
                  dialogs g' = dialogs g)) \<and>
         (validate_inputs inputs = [] \<longrightarrow>
          DataFrame M (RowDict inputs) FO = Inr X \<longrightarrow>
            streamlit_submit M FO inputs =
              Inr [StMetric ''Prediction (class)''
                     (if pred = 1 then ''High stress (1)'' else ''Low stress (0)''),
                   StMetric ''Probability'' ''N/A'',
                   StOther ''markdown'', StOther ''json'', StOther ''download_button''])"
proof (intro conjI impI)
  assume v: "gather_and_map_inputs FO wv g = Inr (Valid payload)"
    and X: "DataFrame M (RowList payload) FO = Inr X"
  let ?g = "g\<lparr>error_labels := map (\<lambda>(feat, text). (feat, [])) (error_labels g)\<rparr>"
  let ?g' = "predict_block M FO payload ?g"
  have "predict_action M FO wv g = Inr ?g'" using v by (rule predict_action_valid)
  moreover have "prob_var ?g' = ''N/A''"
    and "pred_var ?g' = (if pred = 1 then ''1 (High stress)'' else ''0 (Low stress)'')"
    and "dialogs ?g' = dialogs g"
    using X assms by (simp_all add: predict_block_def)
  ultimately show "\<exists>g'. predict_action M FO wv g = Inr g' \<and>
                  prob_var g' = ''N/A'' \<and>
                  pred_var g' = (if pred = 1 then ''1 (High stress)'' else ''0 (Low stress)'') \<and>
                  dialogs g' = dialogs g"
    by blast
next
  assume "validate_inputs inputs = []" and "DataFrame M (RowDict inputs) FO = Inr X"
  with assms show "streamlit_submit M FO inputs =
              Inr [StMetric ''Prediction (class)''
                     (if pred = 1 then ''High stress (1)'' else ''Low stress (0)''),
                   StMetric ''Probability'' ''N/A'',
                   StOther ''markdown'', StOther ''json'', StOther ''download_button'']"
    by (simp add: streamlit_submit_def)
qed

lemma example_dict_complete: "validate_inputs example_dict = []"
  by code_simp

theorem proba_failure_degrades_witness:
  "predict_proba label_only_model (RowList example_vector, REQUIRED_FEATURES) =
     Inl AttributeError \<and>
   predict label_only_model (RowList example_vector, REQUIRED_FEATURES) = Inr 1 \<and>
   gather_and_map_inputs REQUIRED_FEATURES (widget_vars REQUIRED_FEATURES)
     (form_with example_inputs) = Inr (Valid example_vector) \<and>
   DataFrame label_only_model (RowList example_vector) REQUIRED_FEATURES =
     Inr (RowList example_vector, REQUIRED_FEATURES) \<and>
   (\<exists>g'. predict_action label_only_model REQUIRED_FEATURES (widget_vars REQUIRED_FEATURES)
           (form_with example_inputs) = Inr g' \<and>
         prob_var g' = ''N/A'' \<and> pred_var g' = ''1 (High stress)'' \<and> dialogs g' = []) \<and>
   validate_inputs example_dict = [] \<and>
   DataFrame label_only_model (RowDict example_dict) REQUIRED_FEATURES =
     Inr (RowDict example_dict, REQUIRED_FEATURES) \<and>
   streamlit_submit label_only_model REQUIRED_FEATURES example_dict =
     Inr [StMetric ''Prediction (class)'' ''High stress (1)'',
          StMetric ''Probability'' ''N/A'',
          StOther ''markdown'', StOther ''json'', StOther ''download_button'']"
proof -
  let ?M = "label_only_model"
  let ?g = "form_with example_inputs"
  have p: "predict_proba ?M X = Inl AttributeError" for X
    by (simp add: label_only_model_def)
  have c: "predict ?M X = Inr 1" for X
    by (simp add: label_only_model_def)
  have d: "DataFrame ?M r cols = Inr (r, cols)" for r cols
    by (simp add: label_only_model_def)
  have v: "gather_and_map_inputs REQUIRED_FEATURES (widget_vars REQUIRED_FEATURES) ?g =
      Inr (Valid example_vector)"
    by (rule example_gather [folded example_vector_def])
  have dialogs0: "dialogs ?g = []" by (simp add: form_with_def)
  from proba_failure_degrades [where M = ?M and e = AttributeError and pred = 1
      and X = "(RowList example_vector, REQUIRED_FEATURES)" and FO = REQUIRED_FEATURES
      and wv = "widget_vars REQUIRED_FEATURES" and g = ?g and payload = example_vector
      and inputs = "[]", OF p c] v d dialogs0
  have desktop: "\<exists>g'. predict_action ?M REQUIRED_FEATURES (widget_vars REQUIRED_FEATURES) ?g =
        Inr g' \<and> prob_var g' = ''N/A'' \<and> pred_var g' = ''1 (High stress)'' \<and> dialogs g' = []"
    by simp
  from proba_failure_degrades [where M = ?M and e = AttributeError and pred = 1
      and X = "(RowDict example_dict, REQUIRED_FEATURES)" and FO = REQUIRED_FEATURES
      and wv = "[]" and g = ?g and payload = "[]"
      and inputs = example_dict, OF p c] example_dict_complete d
  have web: "streamlit_submit ?M REQUIRED_FEATURES example_dict =
     Inr [StMetric ''Prediction (class)'' ''High stress (1)'',
          StMetric ''Probability'' ''N/A'',
          StOther ''markdown'', StOther ''json'', StOther ''download_button'']"
    by simp
  from p c v d desktop example_dict_complete web show ?thesis by blast
qed

subsection \<open>Purity of the encoding\<close>

text \<open>
  C8. The result of \<open>gather_and_map_inputs\<close> is a function of the feature order, the
  widget dictionary and the contents of the variables of the features in the order:
  two window states that agree on these contents give the same result, whatever their
  labels, result variables and dialogs. It changes nothing itself, and a complete run of
  \<open>predict_action\<close>, which does change labels, result variables and dialogs, leaves the
  result of encoding the form again unchanged.
\<close>

theorem encode_pure:
  "((\<forall>f\<in>set FO. var g1 f = var g2 f) \<longrightarrow>
      gather_and_map_inputs FO wv g1 = gather_and_map_inputs FO wv g2) \<and>
   (\<forall>g'. predict_action M FO wv g = Inr g' \<longrightarrow>
      gather_and_map_inputs FO wv g' = gather_and_map_inputs FO wv g)"
proof (intro conjI allI impI)
  assume "\<forall>f\<in>set FO. var g1 f = var g2 f"
  then show "gather_and_map_inputs FO wv g1 = gather_and_map_inputs FO wv g2"
    by (rule gather_cong)
next
  fix g' assume "predict_action M FO wv g = Inr g'"
  then have "var g' = var g" by (rule var_predict_action)
  then show "gather_and_map_inputs FO wv g' = gather_and_map_inputs FO wv g"
    by (intro gather_cong) simp
qed

theorem encode_pure_witness:
  "list_all
     (\<lambda>f. var (form_with example_inputs) f =
          var ((form_with example_inputs)\<lparr>pred_var := ''1 (High stress)'', prob_var := ''N/A''\<rparr>) f)
     REQUIRED_FEATURES \<and>
   gather_and_map_inputs REQUIRED_FEATURES (widget_vars REQUIRED_FEATURES)
     (form_with example_inputs) =
   gather_and_map_inputs REQUIRED_FEATURES (widget_vars REQUIRED_FEATURES)
     ((form_with example_inputs)\<lparr>pred_var := ''1 (High stress)'', prob_var := ''N/A''\<rparr>) \<and>
   (\<exists>g'. predict_action label_only_model REQUIRED_FEATURES (widget_vars REQUIRED_FEATURES)
           (form_with example_inputs) = Inr g' \<and>
         pred_var g' = ''1 (High stress)'' \<and>
         gather_and_map_inputs REQUIRED_FEATURES (widget_vars REQUIRED_FEATURES) g' =
         gather_and_map_inputs REQUIRED_FEATURES (widget_vars REQUIRED_FEATURES)
           (form_with example_inputs))"
proof -
  let ?g1 = "form_with example_inputs"
  let ?g2 = "?g1\<lparr>pred_var := ''1 (High stress)'', prob_var := ''N/A''\<rparr>"
  let ?wv = "widget_vars REQUIRED_FEATURES"
  let ?g' = "predict_block label_only_model REQUIRED_FEATURES example_vector
      (?g1\<lparr>error_labels := map (\<lambda>(feat, text). (feat, [])) (error_labels ?g1)\<rparr>)"
  have same: "\<forall>f\<in>set REQUIRED_FEATURES. var ?g1 f = var ?g2 f" by simp
  have run: "predict_action label_only_model REQUIRED_FEATURES ?wv ?g1 = Inr ?g'"
    using example_gather [folded example_vector_def] by (rule predict_action_valid)
  have label: "pred_var ?g' = ''1 (High stress)''"
    by (simp add: predict_block_def label_only_model_def)
  from encode_pure [of REQUIRED_FEATURES ?g1 ?g2 ?wv label_only_model ?g1] same run
  have "gather_and_map_inputs REQUIRED_FEATURES ?wv ?g1 =
      gather_and_map_inputs REQUIRED_FEATURES ?wv ?g2"
    and "gather_and_map_inputs REQUIRED_FEATURES ?wv ?g' =
      gather_and_map_inputs REQUIRED_FEATURES ?wv ?g1"
    by blast+
  with run label same show ?thesis by (auto simp: list_all_iff)
qed

end
